theory Spec2Isabelle
  imports Main
begin

section \<open>Data model of the signaling server\<close>

text \<open>
  The server keeps two JavaScript \<^verbatim>\<open>Map\<close>s, \<^verbatim>\<open>peers\<close> and \<^verbatim>\<open>pendingConnections\<close>.
  A \<^verbatim>\<open>Map\<close> iterates in insertion order and the handlers search it by iteration, so
  each one is an association list: \<^verbatim>\<open>set\<close> on a present key replaces the value in
  place, on an absent key it appends; \<^verbatim>\<open>get\<close> reads the entry of the key;
  \<^verbatim>\<open>delete\<close> removes it. The objects stored in \<^verbatim>\<open>peers\<close> are mutated in place by
  the handlers; here that is an update of the entry that holds the object.
\<close>

datatype status = Available | Busy

record peer =
  socketId :: string
  status :: status
  connectedTo :: "string option"

record request =
  viewerSocketId :: string
  viewerConnectionId :: "string option"
  hostSocketId :: string
  hostConnectionId :: string

type_synonym 'v jsmap = "(string \<times> 'v) list"

definition map_has :: "'v jsmap \<Rightarrow> string \<Rightarrow> bool" where
  "map_has m k = (k \<in> set (map fst m))"

definition map_get :: "'v jsmap \<Rightarrow> string \<Rightarrow> 'v option" where
  "map_get m k = map_of m k"

fun map_set :: "'v jsmap \<Rightarrow> string \<Rightarrow> 'v \<Rightarrow> 'v jsmap" where
  "map_set [] k v = [(k, v)]"
| "map_set ((k', v') # m) k v =
     (if k' = k then (k, v) # m else (k', v') # map_set m k v)"

definition map_delete :: "'v jsmap \<Rightarrow> string \<Rightarrow> 'v jsmap" where
  "map_delete m k = filter (\<lambda>e. fst e \<noteq> k) m"

text \<open>In-place mutation of the object stored under a key.\<close>

fun map_adjust :: "string \<Rightarrow> ('v \<Rightarrow> 'v) \<Rightarrow> 'v jsmap \<Rightarrow> 'v jsmap" where
  "map_adjust k f [] = []"
| "map_adjust k f ((k', v) # m) =
     (if k' = k then (k', f v) # m else (k', v) # map_adjust k f m)"

text \<open>
  The server's state: the two maps, the \<^verbatim>\<open>connectionId\<close> property the register
  handler stores on each socket object (keyed by \<^verbatim>\<open>socket.id\<close>; an absent key is
  \<^verbatim>\<open>undefined\<close>), and the grace-period callbacks scheduled by \<^verbatim>\<open>setTimeout\<close> and not
  yet run, each with the identifier and the socket id its closure captured. All
  callbacks have the same delay, so they run in the order they were scheduled.
\<close>

record state =
  peers :: "peer jsmap"
  pendingConnections :: "request jsmap"
  connectionIds :: "string jsmap"
  timers :: "(string \<times> string) list"

definition init :: state where
  "init = \<lparr>peers = [], pendingConnections = [], connectionIds = [], timers = []\<rparr>"

text \<open>
  What a handler emits to a socket, and what it passes to the caller's callback. The
  fields of a message are those of the emitted object, in the order the source writes
  them: \<open>ConnectionRequest requestId viewerId viewerName password\<close>,
  \<open>ConnectionAccepted hostId\<close>, \<open>ConnectionRejected hostId\<close> (a response that rejects),
  \<open>ConnectionRejectedError error\<close> (the host was reclaimed), \<open>SessionEnded fromId\<close>,
  \<open>PeerDisconnected peerId\<close>, and for the events that are only forwarded
  \<open>Relayed kind senderId payload\<close>. A field read from \<^verbatim>\<open>socket.connectionId\<close> is
  optional, as the property is \<^verbatim>\<open>undefined\<close> until the socket registers. An emission
  is a message with the id of the socket it is sent to.
\<close>

datatype relay_kind =
  HostReady | CameraRequest | CameraResponse | CameraReady
  | WebrtcOffer | WebrtcAnswer | WebrtcIceCandidate

datatype message =
  ConnectionRequest string "string option" string "string option"
  | ConnectionAccepted string
  | ConnectionRejected string
  | ConnectionRejectedError string
  | SessionEnded "string option"
  | PeerDisconnected string
  | Relayed relay_kind "string option" string

type_synonym emission = "string \<times> message"

type_synonym ice = "string list"

datatype reply =
  Registered string ice
  | Requested string
  | Failure string

section \<open>Helpers\<close>

text \<open>JavaScript truthiness of a value that is a string, \<^verbatim>\<open>null\<close> or \<^verbatim>\<open>undefined\<close>.\<close>

definition truthy :: "string option \<Rightarrow> bool" where
  "truthy v = (case v of None \<Rightarrow> False | Some s \<Rightarrow> s \<noteq> [])"

text \<open>\<^verbatim>\<open>s.replace(/-/g, '')\<close>\<close>

definition normalizeId :: "string \<Rightarrow> string" where
  "normalizeId s = filter (\<lambda>c. c \<noteq> CHR ''-'') s"

text \<open>\<^verbatim>\<open>s.slice(a, b)\<close> for \<open>0 \<le> a \<le> b\<close>\<close>

definition slice :: "nat \<Rightarrow> nat \<Rightarrow> string \<Rightarrow> string" where
  "slice a b s = take (b - a) (drop a s)"

text \<open>The template \<^verbatim>\<open>`${id.slice(0, 3)}-${id.slice(3, 6)}-${id.slice(6, 9)}`\<close>\<close>

definition formatId :: "string \<Rightarrow> string" where
  "formatId s = slice 0 3 s @ ''-'' @ slice 3 6 s @ ''-'' @ slice 6 9 s"

text \<open>\<^verbatim>\<open>Number.prototype.toString\<close> on a non-negative integer: its decimal digits.\<close>

definition digit_char :: "nat \<Rightarrow> char" where
  "digit_char d = ''0123456789'' ! d"

fun toString :: "nat \<Rightarrow> string" where
  "toString n =
     (if n < 10 then [digit_char n] else toString (n div 10) @ [digit_char (n mod 10)])"

text \<open>
  \<^verbatim>\<open>generateConnectionId\<close>. Its argument is the integer that
  \<^verbatim>\<open>Math.floor(100000000 + Math.random() * 900000000)\<close> evaluates to; as
  \<^verbatim>\<open>Math.random()\<close> lies in \<open>[0, 1)\<close>, the integer lies between 100000000 and
  999999999 (\<open>valid_draw\<close>).
\<close>

definition generateConnectionId :: "nat \<Rightarrow> string" where
  "generateConnectionId n = formatId (toString n)"

definition valid_draw :: "nat \<Rightarrow> bool" where
  "valid_draw n = (100000000 \<le> n \<and> n \<le> 999999999)"

text \<open>
  The loop of \<^verbatim>\<open>findPeerByConnectionId\<close>, which the request handler repeats inline
  to keep the key: the first entry, in insertion order, whose key equals the query once
  the hyphens of both are removed. The handlers that mutate the peer they found use
  \<open>find_entry\<close> as well: the key is where the model updates the object.
\<close>

definition find_entry :: "peer jsmap \<Rightarrow> string \<Rightarrow> (string \<times> peer) option" where
  "find_entry ps connectionId =
     find (\<lambda>e. normalizeId (fst e) = normalizeId connectionId) ps"

definition findPeerByConnectionId :: "state \<Rightarrow> string \<Rightarrow> peer option" where
  "findPeerByConnectionId st connectionId =
     map_option snd (find_entry (peers st) connectionId)"

text \<open>\<^verbatim>\<open>Array.from(peers.values()).find(p => p.socketId === sid)\<close>\<close>

definition find_by_socket :: "peer jsmap \<Rightarrow> string \<Rightarrow> peer option" where
  "find_by_socket ps sid = map_option snd (find (\<lambda>e. socketId (snd e) = sid) ps)"

definition socket_connectionId :: "state \<Rightarrow> string \<Rightarrow> string option" where
  "socket_connectionId st sid = map_get (connectionIds st) sid"

text \<open>
  The object the register handler stores; its \<^verbatim>\<open>socket\<close> field is the socket whose id
  is \<^verbatim>\<open>socketId\<close>, so an emission through it is addressed by that id.
\<close>

definition new_peer :: "string \<Rightarrow> peer" where
  "new_peer sid = \<lparr>socketId = sid, status = Available, connectedTo = None\<rparr>"

definition make_busy :: "string option \<Rightarrow> peer \<Rightarrow> peer" where
  "make_busy c p = p\<lparr>status := Busy, connectedTo := c\<rparr>"

definition make_available :: "peer \<Rightarrow> peer" where
  "make_available p = p\<lparr>status := Available, connectedTo := None\<rparr>"

section \<open>The handlers\<close>

subsection \<open>register\<close>

text \<open>
  The generation loop \<^verbatim>\<open>connectionId = generateConnectionId();
  while (peers.has(connectionId)) connectionId = generateConnectionId();\<close>
  reads its random draws from a list. The loop has no bound: on a list whose draws are
  all taken it has not returned when the list is used up, which is \<open>None\<close>.
\<close>

fun generate_unused :: "peer jsmap \<Rightarrow> nat list \<Rightarrow> string option" where
  "generate_unused ps [] = None"
| "generate_unused ps (d # ds) =
     (if map_has ps (generateConnectionId d) then generate_unused ps ds
      else Some (generateConnectionId d))"

text \<open>
  The preferred identifier, when the handler adopts it: \<^verbatim>\<open>if (preferredId)\<close>, then
  \<^verbatim>\<open>normalizedPreferred.length === 9 && !peers.has(formatted)\<close>.
\<close>

definition adopt_preferred :: "peer jsmap \<Rightarrow> string option \<Rightarrow> string option" where
  "adopt_preferred ps preferredId =
     (case preferredId of
        None \<Rightarrow> None
      | Some p \<Rightarrow>
          if p = [] then None
          else if length (normalizeId p) = 9 \<and> \<not> map_has ps (formatId (normalizeId p))
          then Some (formatId (normalizeId p))
          else None)"

text \<open>\<^verbatim>\<open>socket.connectionId && peers.has(socket.connectionId)\<close>\<close>

definition live_registration :: "state \<Rightarrow> string \<Rightarrow> string option" where
  "live_registration st sid =
     (case socket_connectionId st sid of
        None \<Rightarrow> None
      | Some c \<Rightarrow> if c \<noteq> [] \<and> map_has (peers st) c then Some c else None)"

definition choose_id :: "state \<Rightarrow> string option \<Rightarrow> nat list \<Rightarrow> string option" where
  "choose_id st preferredId draws =
     (case adopt_preferred (peers st) preferredId of
        Some c \<Rightarrow> Some c
      | None \<Rightarrow> generate_unused (peers st) draws)"

text \<open>
  The body of the handler after \<^verbatim>\<open>await getIceServers()\<close>, for the socket with id
  \<open>sid\<close>. \<open>preferredId\<close> is \<^verbatim>\<open>dataOrCallback.preferredId || null\<close>, \<open>draws\<close> are the
  results of the generator's random draws in order, \<open>iceServers\<close> is what the await
  returned. The value is the new state and the object passed to the callback.
\<close>

definition register ::
  "state \<Rightarrow> string \<Rightarrow> string option \<Rightarrow> nat list \<Rightarrow> ice \<Rightarrow> (state \<times> reply) option" where
  "register st sid preferredId draws iceServers =
     (case live_registration st sid of
        Some c \<Rightarrow> Some (st, Registered c iceServers)
      | None \<Rightarrow>
          (case choose_id st preferredId draws of
             None \<Rightarrow> None
           | Some connectionId \<Rightarrow>
               Some (st\<lparr>peers := map_set (peers st) connectionId (new_peer sid),
                         connectionIds := map_set (connectionIds st) sid connectionId\<rparr>,
                     Registered connectionId iceServers)))"

subsection \<open>request-connection\<close>

text \<open>
  The handler for the socket with id \<open>sid\<close>; \<open>requestId\<close> is the result of
  \<^verbatim>\<open>uuidv4()\<close>. \<open>or_else\<close> is \<^verbatim>\<open>viewerName || 'Unknown'\<close> and \<open>or_undefined\<close> is
  \<^verbatim>\<open>password || undefined\<close>. The value is the new state, the emissions and the object
  passed to the callback.
\<close>

definition PeerNotFound :: string where
  "PeerNotFound = ''Peer not found or offline''"

definition PeerBusy :: string where
  "PeerBusy = ''Peer is busy with another session''"

definition or_else :: "string option \<Rightarrow> string \<Rightarrow> string" where
  "or_else v d = (if truthy v then the v else d)"

definition or_undefined :: "string option \<Rightarrow> string option" where
  "or_undefined v = (if truthy v then v else None)"

definition request_connection ::
  "state \<Rightarrow> string \<Rightarrow> string \<Rightarrow> string option \<Rightarrow> string option \<Rightarrow> string
     \<Rightarrow> state \<times> emission list \<times> reply" where
  "request_connection st sid targetId viewerName password requestId =
     (case find_entry (peers st) targetId of
        None \<Rightarrow> (st, [], Failure PeerNotFound)
      | Some (targetConnectionId, targetPeer) \<Rightarrow>
          if status targetPeer = Busy then (st, [], Failure PeerBusy)
          else
            (st\<lparr>pendingConnections := map_set (pendingConnections st) requestId
                  \<lparr>viewerSocketId = sid,
                   viewerConnectionId = socket_connectionId st sid,
                   hostSocketId = socketId targetPeer,
                   hostConnectionId = targetConnectionId\<rparr>\<rparr>,
             [(socketId targetPeer,
               ConnectionRequest requestId (socket_connectionId st sid)
                 (or_else viewerName ''Unknown'') (or_undefined password))],
             Requested requestId))"

subsection \<open>connection-response\<close>

text \<open>
  \<^verbatim>\<open>peers.get(id)\<close> followed by the guarded assignment of both fields; an id that is
  \<^verbatim>\<open>undefined\<close> is the key of no entry.
\<close>

definition pair_with :: "string option \<Rightarrow> string option \<Rightarrow> peer jsmap \<Rightarrow> peer jsmap" where
  "pair_with key other ps =
     (case key of None \<Rightarrow> ps | Some k \<Rightarrow> map_adjust k (make_busy other) ps)"

text \<open>
  The handler never reads the socket it runs for: \<open>sid\<close> is a parameter the definition
  does not use. The viewer is looked up by the socket id the request recorded; the two
  entries are looked up by the identifiers it recorded, the host's first.
\<close>

definition connection_response ::
  "state \<Rightarrow> string \<Rightarrow> string \<Rightarrow> bool \<Rightarrow> state \<times> emission list" where
  "connection_response st sid requestId accepted =
     (case map_get (pendingConnections st) requestId of
        None \<Rightarrow> (st, [])
      | Some req \<Rightarrow>
          (case find_by_socket (peers st) (viewerSocketId req) of
             None \<Rightarrow>
               (st\<lparr>pendingConnections := map_delete (pendingConnections st) requestId\<rparr>, [])
           | Some viewerPeer \<Rightarrow>
               if accepted then
                 (st\<lparr>peers :=
                       pair_with (viewerConnectionId req) (Some (hostConnectionId req))
                         (pair_with (Some (hostConnectionId req)) (viewerConnectionId req)
                            (peers st)),
                     pendingConnections := map_delete (pendingConnections st) requestId\<rparr>,
                  [(socketId viewerPeer, ConnectionAccepted (hostConnectionId req))])
               else
                 (st\<lparr>pendingConnections := map_delete (pendingConnections st) requestId\<rparr>,
                  [(socketId viewerPeer, ConnectionRejected (hostConnectionId req))])))"

subsection \<open>The relayed events and end-session\<close>

text \<open>
  host-ready, request-camera, camera-response, camera-ready and the three webrtc events
  look the target up and forward to the socket of its entry; the payload is not read.
  end-session also resets the target's entry, when found, and the sender's own.
\<close>

definition relay ::
  "state \<Rightarrow> string \<Rightarrow> relay_kind \<Rightarrow> string \<Rightarrow> string \<Rightarrow> state \<times> emission list" where
  "relay st sid kind targetId payload =
     (case findPeerByConnectionId st targetId of
        None \<Rightarrow> (st, [])
      | Some targetPeer \<Rightarrow>
          (st, [(socketId targetPeer, Relayed kind (socket_connectionId st sid) payload)]))"

definition end_session :: "state \<Rightarrow> string \<Rightarrow> string \<Rightarrow> state \<times> emission list" where
  "end_session st sid targetId =
     (let (ps, out) =
            (case find_entry (peers st) targetId of
               None \<Rightarrow> (peers st, [])
             | Some (k, targetPeer) \<Rightarrow>
                 (map_adjust k make_available (peers st),
                  [(socketId targetPeer, SessionEnded (socket_connectionId st sid))]))
      in (st\<lparr>peers :=
               (case socket_connectionId st sid of
                  None \<Rightarrow> ps
                | Some own \<Rightarrow> map_adjust own make_available ps)\<rparr>,
          out))"

subsection \<open>disconnect and the grace-period callback\<close>

text \<open>
  The disconnect handler only schedules the callback, and only for a socket whose
  \<^verbatim>\<open>connectionId\<close> is set. \<open>grace_task st disconnectedId sid\<close> is the callback, with
  the identifier and the socket id it captured.
\<close>

definition disconnect :: "state \<Rightarrow> string \<Rightarrow> state" where
  "disconnect st sid =
     (if truthy (socket_connectionId st sid)
      then st\<lparr>timers := timers st @ [(the (socket_connectionId st sid), sid)]\<rparr>
      else st)"

text \<open>
  The loop over \<^verbatim>\<open>pendingConnections.entries()\<close>: each entry is visited once, in
  insertion order, and deleted or kept; \<^verbatim>\<open>peers\<close> does not change while it runs.
  It returns the entries kept and the emissions in the order they are sent.
\<close>

fun reap :: "peer jsmap \<Rightarrow> string \<Rightarrow> request jsmap \<Rightarrow> request jsmap \<times> emission list" where
  "reap ps disconnectedId [] = ([], [])"
| "reap ps disconnectedId ((requestId, req) # rest) =
     (let (kept, out) = reap ps disconnectedId rest
      in if hostConnectionId req = disconnectedId then
           (kept,
            (case find_by_socket ps (viewerSocketId req) of
               None \<Rightarrow> []
             | Some viewerPeer \<Rightarrow>
                 [(socketId viewerPeer, ConnectionRejectedError ''Peer disconnected'')]) @ out)
         else if viewerConnectionId req = Some disconnectedId then (kept, out)
         else ((requestId, req) # kept, out))"

text \<open>The first step of the cleanup: the peer named by \<^verbatim>\<open>peer.connectedTo\<close>.\<close>

definition release_partner ::
  "peer jsmap \<Rightarrow> string \<Rightarrow> peer \<Rightarrow> peer jsmap \<times> emission list" where
  "release_partner ps disconnectedId p =
     (if truthy (connectedTo p) then
        (case find_entry ps (the (connectedTo p)) of
           None \<Rightarrow> (ps, [])
         | Some (k, connectedPeer) \<Rightarrow>
             (map_adjust k make_available ps,
              [(socketId connectedPeer, PeerDisconnected disconnectedId)]))
      else (ps, []))"

definition grace_task :: "state \<Rightarrow> string \<Rightarrow> string \<Rightarrow> state \<times> emission list" where
  "grace_task st disconnectedId sid =
     (case map_get (peers st) disconnectedId of
        None \<Rightarrow> (st, [])
      | Some p \<Rightarrow>
          if socketId p \<noteq> sid then (st, [])
          else
            (let (ps, out1) = release_partner (peers st) disconnectedId p;
                 (kept, out2) = reap ps disconnectedId (pendingConnections st)
             in (st\<lparr>peers := map_delete ps disconnectedId, pendingConnections := kept\<rparr>,
                 out1 @ out2)))"

section \<open>Executions\<close>

datatype event =
  Register string "string option" "nat list" ice
  | RequestConnection string string "string option" "string option" string
  | ConnectionResponse string string bool
  | Relay string relay_kind string string
  | EndSession string string
  | Disconnect string
  | GraceElapsed

text \<open>
  One event handled to completion. The first argument of every event but the last is
  the id of the socket whose handler runs. \<open>GraceElapsed\<close> runs the oldest scheduled
  callback. \<open>None\<close> is a register that has not left its generation loop. The object a
  handler passes to its callback is not part of the result.
\<close>

fun step :: "state \<Rightarrow> event \<Rightarrow> (state \<times> emission list) option" where
  "step st (Register sid preferredId draws iceServers) =
     map_option (\<lambda>r. (fst r, [])) (register st sid preferredId draws iceServers)"
| "step st (RequestConnection sid targetId viewerName password requestId) =
     (case request_connection st sid targetId viewerName password requestId of
        (st', out, r) \<Rightarrow> Some (st', out))"
| "step st (ConnectionResponse sid requestId accepted) =
     Some (connection_response st sid requestId accepted)"
| "step st (Relay sid kind targetId payload) = Some (relay st sid kind targetId payload)"
| "step st (EndSession sid targetId) = Some (end_session st sid targetId)"
| "step st (Disconnect sid) = Some (disconnect st sid, [])"
| "step st GraceElapsed =
     (case timers st of
        [] \<Rightarrow> Some (st, [])
      | (disconnectedId, sid) # ts \<Rightarrow> Some (grace_task (st\<lparr>timers := ts\<rparr>) disconnectedId sid))"

text \<open>The draws of a register event are results of the generator's arithmetic.\<close>

fun wf_event :: "event \<Rightarrow> bool" where
  "wf_event (Register sid preferredId draws iceServers) = list_all valid_draw draws"
| "wf_event e = True"

inductive reachable :: "state \<Rightarrow> bool" where
  reachable_init: "reachable init"
| reachable_step: "reachable st \<Longrightarrow> wf_event e \<Longrightarrow> step st e = Some (st', out) \<Longrightarrow> reachable st'"

text \<open>
  \<open>reachable\<close> lets any socket id run any handler at any time. The executions of
  the server are narrower: a socket id is issued once, by a connection; a socket sends
  events only while it is connected and disconnects once. The register handler awaits
  the ICE servers before it touches the registry, so its body may run after its socket
  has disconnected; every other handler runs when its event arrives. A \<open>world\<close> adds
  the connected sockets and the socket ids issued so far to the server's state.
\<close>

record world =
  server :: state
  connected :: "string list"
  seen :: "string list"

definition boot :: world where
  "boot = \<lparr>server = init, connected = [], seen = []\<rparr>"

datatype action = Connect string | Handle event

fun sender :: "event \<Rightarrow> string option" where
  "sender (Register sid preferredId draws iceServers) = Some sid"
| "sender (RequestConnection sid targetId viewerName password requestId) = Some sid"
| "sender (ConnectionResponse sid requestId accepted) = Some sid"
| "sender (Relay sid kind targetId payload) = Some sid"
| "sender (EndSession sid targetId) = Some sid"
| "sender (Disconnect sid) = Some sid"
| "sender GraceElapsed = None"

fun in_flight :: "event \<Rightarrow> bool" where
  "in_flight (Register sid preferredId draws iceServers) = True"
| "in_flight e = False"

definition enabled :: "world \<Rightarrow> action \<Rightarrow> bool" where
  "enabled w a =
     (case a of
        Connect sid \<Rightarrow> sid \<notin> set (seen w)
      | Handle e \<Rightarrow>
          wf_event e \<and>
          (case sender e of
             None \<Rightarrow> True
           | Some sid \<Rightarrow>
               if in_flight e then sid \<in> set (seen w) else sid \<in> set (connected w)))"

definition act :: "world \<Rightarrow> action \<Rightarrow> (world \<times> emission list) option" where
  "act w a =
     (case a of
        Connect sid \<Rightarrow> Some (w\<lparr>connected := sid # connected w, seen := sid # seen w\<rparr>, [])
      | Handle e \<Rightarrow>
          (case step (server w) e of
             None \<Rightarrow> None
           | Some (st', out) \<Rightarrow>
               Some (w\<lparr>server := st',
                        connected := (case e of Disconnect sid \<Rightarrow> removeAll sid (connected w)
                                      | _ \<Rightarrow> connected w)\<rparr>, out)))"

inductive live_reachable :: "world \<Rightarrow> bool" where
  live_boot: "live_reachable boot"
| live_act: "live_reachable w \<Longrightarrow> enabled w a \<Longrightarrow> act w a = Some (w', out) \<Longrightarrow> live_reachable w'"

text \<open>
  A list of actions played from a world, with the emissions in order. \<open>None\<close> when an
  action is not enabled or a register has not left its generation loop.
\<close>

fun play :: "world \<Rightarrow> action list \<Rightarrow> (world \<times> emission list) option" where
  "play w [] = Some (w, [])"
| "play w (a # as) =
     (if enabled w a then
        (case act w a of
           None \<Rightarrow> None
         | Some (w', out) \<Rightarrow>
             (case play w' as of None \<Rightarrow> None | Some (w'', out') \<Rightarrow> Some (w'', out @ out')))
      else None)"

section \<open>Notions used in the properties\<close>

text \<open>
  The format of a generated identifier.
\<close>

definition is_digit :: "char \<Rightarrow> bool" where
  "is_digit c = (c \<in> set ''0123456789'')"

definition three_digits :: "string \<Rightarrow> bool" where
  "three_digits g = (length g = 3 \<and> list_all is_digit g)"

definition id_format :: "string \<Rightarrow> bool" where
  "id_format s =
     (length s = 11 \<and> three_digits (take 3 s) \<and> s ! 3 = CHR ''-''
      \<and> three_digits (take 3 (drop 4 s)) \<and> s ! 7 = CHR ''-'' \<and> three_digits (drop 8 s))"

text \<open>
  A key written the way the register handler writes it: nine characters other than
  hyphens, in three groups.
\<close>

definition canonical :: "string \<Rightarrow> bool" where
  "canonical k = (length (normalizeId k) = 9 \<and> formatId (normalizeId k) = k)"

text \<open>
  The registry's keys are pairwise different and canonical.
\<close>

definition good_keys :: "'v jsmap \<Rightarrow> bool" where
  "good_keys m = (distinct (map fst m) \<and> list_all canonical (map fst m))"

text \<open>
  A paired entry.
\<close>

definition busy_peer :: "string \<Rightarrow> string option \<Rightarrow> peer" where
  "busy_peer sid c = \<lparr>socketId = sid, status = Busy, connectedTo = c\<rparr>"

text \<open>
  The half of the pairing invariant that every operation preserves.
\<close>

definition connected_implies_busy :: "peer \<Rightarrow> bool" where
  "connected_implies_busy p = (connectedTo p \<noteq> None \<longrightarrow> status p = Busy)"

text \<open>
  The pairing invariant as the specification states it.
\<close>

definition busy_iff_connected :: "peer \<Rightarrow> bool" where
  "busy_iff_connected p = ((status p = Busy) = (connectedTo p \<noteq> None))"

definition symmetric_pairs :: "peer jsmap \<Rightarrow> bool" where
  "symmetric_pairs ps =
     (\<forall>a \<in> set ps. \<forall>b \<in> set ps.
        status (snd a) = Busy \<and> status (snd b) = Busy \<and> connectedTo (snd a) = Some (fst b)
          \<longrightarrow> connectedTo (snd b) = Some (fst a))"

definition pairing_invariant :: "state \<Rightarrow> bool" where
  "pairing_invariant st =
     (list_all (\<lambda>e. busy_iff_connected (snd e)) (peers st) \<and> symmetric_pairs (peers st))"

text \<open>
  The case in which the register handler adopts the preferred identifier, stated on
  hyphen-stripped identifiers.
\<close>

definition adoptable :: "state \<Rightarrow> string option \<Rightarrow> bool" where
  "adoptable st preferredId =
     (case preferredId of
        None \<Rightarrow> False
      | Some p \<Rightarrow> p \<noteq> [] \<and> length (normalizeId p) = 9
          \<and> list_all (\<lambda>e. normalizeId (fst e) \<noteq> normalizeId p) (peers st))"

text \<open>
  The state after a registration that created an entry.
\<close>

definition registered_as :: "state \<Rightarrow> string \<Rightarrow> string \<Rightarrow> state" where
  "registered_as st sid c =
     st\<lparr>peers := peers st @ [(c, new_peer sid)],
        connectionIds := map_set (connectionIds st) sid c\<rparr>"

text \<open>
  The pending request the request handler stores.
\<close>

definition new_request :: "state \<Rightarrow> string \<Rightarrow> string \<Rightarrow> peer \<Rightarrow> request" where
  "new_request st sid k p =
     \<lparr>viewerSocketId = sid, viewerConnectionId = socket_connectionId st sid,
      hostSocketId = socketId p, hostConnectionId = k\<rparr>"

text \<open>
  What the pending-request loop of the grace-period callback emits and keeps.
\<close>

definition rejection_notices :: "peer jsmap \<Rightarrow> string \<Rightarrow> request jsmap \<Rightarrow> emission list" where
  "rejection_notices ps disconnectedId pending =
     map (\<lambda>e. (viewerSocketId (snd e), ConnectionRejectedError ''Peer disconnected''))
       (filter (\<lambda>e. hostConnectionId (snd e) = disconnectedId
                  \<and> find_by_socket ps (viewerSocketId (snd e)) \<noteq> None) pending)"

definition surviving_requests :: "string \<Rightarrow> request jsmap \<Rightarrow> request jsmap" where
  "surviving_requests disconnectedId pending =
     filter (\<lambda>e. hostConnectionId (snd e) \<noteq> disconnectedId
               \<and> viewerConnectionId (snd e) \<noteq> Some disconnectedId) pending"

text \<open>
  The invariant of the executions: \<open>holds ps k sid\<close> says that the registry has an entry under
  \<open>k\<close> and that it carries the socket id \<open>sid\<close>.
\<close>

definition holds :: "peer jsmap \<Rightarrow> string \<Rightarrow> string \<Rightarrow> bool" where
  "holds ps k sid = (case map_get ps k of None \<Rightarrow> False | Some p \<Rightarrow> socketId p = sid)"

definition holds_opt :: "peer jsmap \<Rightarrow> string option \<Rightarrow> string \<Rightarrow> bool" where
  "holds_opt ps key sid = (case key of None \<Rightarrow> True | Some k \<Rightarrow> holds ps k sid)"

definition sockets_ok :: "world \<Rightarrow> bool" where
  "sockets_ok w =
     (set (connected w) \<subseteq> set (seen w)
      \<and> list_all (\<lambda>t. snd t \<in> set (seen w) \<and> snd t \<notin> set (connected w)) (timers (server w))
      \<and> distinct (map snd (timers (server w)))
      \<and> list_all (\<lambda>c. fst c \<in> set (seen w)) (connectionIds (server w)))"

definition live_registered :: "world \<Rightarrow> bool" where
  "live_registered w =
     list_all (\<lambda>sid. holds_opt (peers (server w)) (socket_connectionId (server w) sid) sid)
       (connected w)"

definition timers_hold :: "state \<Rightarrow> bool" where
  "timers_hold st = list_all (\<lambda>t. holds (peers st) (fst t) (snd t)) (timers st)"

definition requests_hold :: "state \<Rightarrow> bool" where
  "requests_hold st =
     list_all (\<lambda>e. map_has (peers st) (hostConnectionId (snd e))
                 \<and> holds_opt (peers st) (viewerConnectionId (snd e)) (viewerSocketId (snd e)))
       (pendingConnections st)"

definition live_inv :: "world \<Rightarrow> bool" where
  "live_inv w = (sockets_ok w \<and> live_registered w \<and> timers_hold (server w) \<and> requests_hold (server w))"

text \<open>
  Two registries with the same keys and the same socket under each key.
\<close>

definition same_sockets :: "peer jsmap \<Rightarrow> peer jsmap \<Rightarrow> bool" where
  "same_sockets ps ps' =
     (\<forall>k. map_option socketId (map_get ps' k) = map_option socketId (map_get ps k))"

text \<open>
  Concrete executions used as witnesses and counterexamples, and the states they end in.
\<close>

definition reconnect_actions :: "action list" where
  "reconnect_actions =
     [Connect ''s1'', Handle (Register ''s1'' (Some ''111111111'') [] []),
      Connect ''s2'', Handle (Register ''s2'' (Some ''222222222'') [] []),
      Handle (RequestConnection ''s2'' ''111-111-111'' (Some ''viewer'') None ''r1''),
      Handle (ConnectionResponse ''s1'' ''r1'' True),
      Handle (Disconnect ''s1''),
      Connect ''s3'', Handle (Register ''s3'' (Some ''111-111-111'') [333333333] []),
      Handle GraceElapsed]"

definition late_request_actions :: "action list" where
  "late_request_actions =
     [Connect ''s1'', Handle (Register ''s1'' (Some ''111111111'') [] []),
      Connect ''s2'', Handle (RequestConnection ''s2'' ''111-111-111'' None None ''r1''),
      Handle (Register ''s2'' (Some ''222222222'') [] [])]"

definition late_registration_actions :: "action list" where
  "late_registration_actions =
     late_request_actions @ [Handle (ConnectionResponse ''s1'' ''r1'' True)]"

definition overlapping_accepts_actions :: "action list" where
  "overlapping_accepts_actions =
     [Connect ''s1'', Handle (Register ''s1'' (Some ''111111111'') [] []),
      Connect ''s2'', Handle (Register ''s2'' (Some ''222222222'') [] []),
      Connect ''s3'', Handle (Register ''s3'' (Some ''333333333'') [] []),
      Handle (RequestConnection ''s2'' ''333-333-333'' None None ''r2''),
      Handle (RequestConnection ''s2'' ''111-111-111'' None None ''r1''),
      Handle (ConnectionResponse ''s1'' ''r1'' True),
      Handle (ConnectionResponse ''s3'' ''r2'' True)]"

definition unnotified_viewer_actions :: "action list" where
  "unnotified_viewer_actions =
     [Connect ''s1'', Handle (Register ''s1'' (Some ''111111111'') [] []),
      Connect ''s2'', Handle (RequestConnection ''s2'' ''111111111'' None None ''r1''),
      Handle (Disconnect ''s1'')]"

definition reclaim_actions :: "action list" where
  "reclaim_actions =
     [Connect ''s1'', Handle (Register ''s1'' (Some ''111111111'') [] []),
      Connect ''s2'', Handle (Register ''s2'' (Some ''222222222'') [] []),
      Connect ''s3'', Handle (Register ''s3'' (Some ''333333333'') [] []),
      Handle (RequestConnection ''s3'' ''111-111-111'' None None ''r2''),
      Handle (RequestConnection ''s2'' ''111-111-111'' None None ''r1''),
      Handle (RequestConnection ''s1'' ''333-333-333'' None None ''r3''),
      Handle (ConnectionResponse ''s1'' ''r1'' True),
      Handle (Disconnect ''s1'')]"

definition accept_actions :: "action list" where
  "accept_actions =
     [Connect ''s1'', Handle (Register ''s1'' (Some ''111111111'') [] []),
      Connect ''s2'', Handle (Register ''s2'' (Some ''222222222'') [] []),
      Handle (RequestConnection ''s2'' ''111-111-111'' None None ''r1'')]"

definition lone_host_actions :: "action list" where
  "lone_host_actions =
     [Connect ''s1'', Handle (Register ''s1'' (Some ''111111111'') [] []), Connect ''s2'']"

definition one_peer_actions :: "action list" where
  "one_peer_actions = [Connect ''s1'', Handle (Register ''s1'' None [123456789] [])]"

definition three_ids :: "string jsmap" where
  "three_ids = [(''s1'', ''111-111-111''), (''s2'', ''222-222-222''), (''s3'', ''333-333-333'')]"

definition two_ids :: "string jsmap" where
  "two_ids = [(''s1'', ''111-111-111''), (''s2'', ''222-222-222'')]"

definition reconnect_final :: state where
  "reconnect_final =
     \<lparr>peers = [(''222-222-222'', new_peer ''s2''), (''333-333-333'', new_peer ''s3'')],
      pendingConnections = [], connectionIds = three_ids, timers = []\<rparr>"

definition late_request_state :: state where
  "late_request_state =
     \<lparr>peers = [(''111-111-111'', new_peer ''s1''), (''222-222-222'', new_peer ''s2'')],
      pendingConnections =
        [(''r1'', \<lparr>viewerSocketId = ''s2'', viewerConnectionId = None,
                   hostSocketId = ''s1'', hostConnectionId = ''111-111-111''\<rparr>)],
      connectionIds = two_ids, timers = []\<rparr>"

definition late_registration_final :: state where
  "late_registration_final =
     \<lparr>peers = [(''111-111-111'', busy_peer ''s1'' None), (''222-222-222'', new_peer ''s2'')],
      pendingConnections = [], connectionIds = two_ids, timers = []\<rparr>"

definition overlapping_accepts_final :: state where
  "overlapping_accepts_final =
     \<lparr>peers = [(''111-111-111'', busy_peer ''s1'' (Some ''222-222-222'')),
               (''222-222-222'', busy_peer ''s2'' (Some ''333-333-333'')),
               (''333-333-333'', busy_peer ''s3'' (Some ''222-222-222''))],
      pendingConnections = [], connectionIds = three_ids, timers = []\<rparr>"

definition unnotified_before :: state where
  "unnotified_before =
     \<lparr>peers = [(''111-111-111'', new_peer ''s1'')],
      pendingConnections =
        [(''r1'', \<lparr>viewerSocketId = ''s2'', viewerConnectionId = None,
                   hostSocketId = ''s1'', hostConnectionId = ''111-111-111''\<rparr>)],
      connectionIds = [(''s1'', ''111-111-111'')],
      timers = [(''111-111-111'', ''s1'')]\<rparr>"

definition unnotified_after :: state where
  "unnotified_after =
     \<lparr>peers = [], pendingConnections = [],
      connectionIds = [(''s1'', ''111-111-111'')], timers = []\<rparr>"

definition reclaim_state :: state where
  "reclaim_state =
     \<lparr>peers = [(''111-111-111'', busy_peer ''s1'' (Some ''222-222-222'')),
               (''222-222-222'', busy_peer ''s2'' (Some ''111-111-111'')),
               (''333-333-333'', new_peer ''s3'')],
      pendingConnections =
        [(''r2'', \<lparr>viewerSocketId = ''s3'', viewerConnectionId = Some ''333-333-333'',
                   hostSocketId = ''s1'', hostConnectionId = ''111-111-111''\<rparr>),
         (''r3'', \<lparr>viewerSocketId = ''s1'', viewerConnectionId = Some ''111-111-111'',
                   hostSocketId = ''s3'', hostConnectionId = ''333-333-333''\<rparr>)],
      connectionIds = three_ids,
      timers = [(''111-111-111'', ''s1'')]\<rparr>"

definition accept_request :: request where
  "accept_request =
     \<lparr>viewerSocketId = ''s2'', viewerConnectionId = Some ''222-222-222'',
      hostSocketId = ''s1'', hostConnectionId = ''111-111-111''\<rparr>"

definition accept_state :: state where
  "accept_state =
     \<lparr>peers = [(''111-111-111'', new_peer ''s1''), (''222-222-222'', new_peer ''s2'')],
      pendingConnections = [(''r1'', accept_request)],
      connectionIds = two_ids, timers = []\<rparr>"

definition lone_host :: state where
  "lone_host =
     \<lparr>peers = [(''111-111-111'', new_peer ''s1'')],
      pendingConnections = [],
      connectionIds = [(''s1'', ''111-111-111'')],
      timers = []\<rparr>"

definition one_peer :: state where
  "one_peer =
     \<lparr>peers = [(''123-456-789'', new_peer ''s1'')],
      pendingConnections = [],
      connectionIds = [(''s1'', ''123-456-789'')],
      timers = []\<rparr>"

text \<open>
  The digit sequence of a string.
\<close>

definition digits_of :: "string \<Rightarrow> string" where
  "digits_of s = filter is_digit s"

section \<open>Properties\<close>

subsection \<open>Identifiers\<close>

lemma length9_elems:
  "length (n::'a list) = 9 \<Longrightarrow> \<exists>a b c d e f g h i. n = [a, b, c, d, e, f, g, h, i]"
  by (auto simp: eval_nat_numeral length_Suc_conv)

lemma formatId_nine:
  "formatId [a, b, c, d, e, f, g, h, i] = [a, b, c, CHR ''-'', d, e, f, CHR ''-'', g, h, i]"
  by (simp add: formatId_def slice_def)

lemma normalizeId_no_hyphen: "CHR ''-'' \<notin> set (normalizeId s)"
  by (simp add: normalizeId_def)

lemma normalizeId_idem: "CHR ''-'' \<notin> set n \<Longrightarrow> normalizeId n = n"
  by (auto simp: normalizeId_def filter_id_conv)

lemma normalizeId_formatId:
  assumes "length n = 9" and "CHR ''-'' \<notin> set n"
  shows "normalizeId (formatId n) = n"
proof -
  from assms(1) obtain a b c d e f g h i where n: "n = [a, b, c, d, e, f, g, h, i]"
    using length9_elems by blast
  with assms(2) show ?thesis
    by (auto simp: formatId_nine normalizeId_def)
qed

lemma canonical_formatId:
  "length n = 9 \<Longrightarrow> CHR ''-'' \<notin> set n \<Longrightarrow> canonical (formatId n)"
  by (simp add: canonical_def normalizeId_formatId)

lemma canonical_inj: "canonical a \<Longrightarrow> canonical b \<Longrightarrow> normalizeId a = normalizeId b \<Longrightarrow> a = b"
  by (metis canonical_def)

lemma formatId_nonempty: "formatId n \<noteq> []"
  by (simp add: formatId_def)

lemma digit_char_is_digit: "d < 10 \<Longrightarrow> is_digit (digit_char d)"
  by (simp add: is_digit_def digit_char_def del: set_simps)

lemma is_digit_not_hyphen: "is_digit c \<Longrightarrow> c \<noteq> CHR ''-''"
  by (auto simp: is_digit_def)

declare toString.simps [simp del]

lemma toString_digits: "list_all is_digit (toString n)"
proof (induction n rule: toString.induct)
  case (1 n)
  show ?case
  proof (cases "n < 10")
    case True
    then show ?thesis by (subst toString.simps) (simp add: digit_char_is_digit)
  next
    case False
    with 1 show ?thesis by (subst toString.simps) (simp add: digit_char_is_digit)
  qed
qed

lemma toString_length: "10 ^ k \<le> n \<Longrightarrow> n < 10 ^ Suc k \<Longrightarrow> length (toString n) = Suc k"
proof (induction k arbitrary: n)
  case 0
  then show ?case by (subst toString.simps) simp
next
  case (Suc k)
  have "(10::nat) * 1 \<le> 10 * 10 ^ k" by (rule mult_le_mono2) simp
  moreover from Suc.prems have "10 * 10 ^ k \<le> n" by simp
  ultimately have big: "\<not> n < 10" by linarith
  from Suc.prems have lo: "10 ^ k \<le> n div 10" and hi: "n div 10 < 10 ^ Suc k"
    by (simp_all add: less_mult_imp_div_less)
  from Suc.IH [OF lo hi] big show ?case by (subst toString.simps) simp
qed

lemma toString_valid_draw:
  assumes "valid_draw n"
  shows "length (toString n) = 9" and "list_all is_digit (toString n)"
    and "CHR ''-'' \<notin> set (toString n)"
proof -
  from assms have "10 ^ 8 \<le> n" "n < 10 ^ Suc 8" by (simp_all add: valid_draw_def)
  then show "length (toString n) = 9" using toString_length [of 8 n] by simp
  show d: "list_all is_digit (toString n)" by (rule toString_digits)
  then show "CHR ''-'' \<notin> set (toString n)"
    using is_digit_not_hyphen by (auto simp: list_all_iff)
qed

lemma generate_format: "valid_draw n \<Longrightarrow> id_format (generateConnectionId n)"
proof -
  assume v: "valid_draw n"
  then obtain a b c d e f g h i where n: "toString n = [a, b, c, d, e, f, g, h, i]"
    using length9_elems toString_valid_draw(1) by blast
  from toString_valid_draw(2) [OF v] show ?thesis
    by (simp add: generateConnectionId_def n formatId_nine id_format_def three_digits_def)
qed

lemma canonical_generate: "valid_draw n \<Longrightarrow> canonical (generateConnectionId n)"
  by (simp add: generateConnectionId_def canonical_formatId toString_valid_draw)

subsection \<open>The maps\<close>

lemma map_set_absent: "\<not> map_has m k \<Longrightarrow> map_set m k v = m @ [(k, v)]"
  by (induction m) (auto simp: map_has_def)

lemma map_get_map_set: "map_get (map_set m k v) k' = (if k' = k then Some v else map_get m k')"
  by (induction m) (auto simp: map_get_def)

lemma keys_map_set:
  "map fst (map_set m k v) = (if k \<in> set (map fst m) then map fst m else map fst m @ [k])"
  by (induction m) (force+)

lemma map_has_map_set: "map_has (map_set m k v) k' = (k' = k \<or> map_has m k')"
  by (auto simp: map_has_def keys_map_set simp del: set_map)

lemma keys_map_adjust: "map fst (map_adjust k f m) = map fst m"
  by (induction m) auto

lemma keys_map_delete: "map fst (map_delete m k) = filter (\<lambda>k'. k' \<noteq> k) (map fst m)"
  by (simp add: map_delete_def filter_map comp_def)

lemma map_get_map_delete: "map_get (map_delete m k) k' = (if k' = k then None else map_get m k')"
  by (induction m) (auto simp: map_get_def map_delete_def)

lemma map_get_map_adjust:
  "map_get (map_adjust k f m) k' = (if k' = k then map_option f (map_get m k) else map_get m k')"
  by (induction m) (auto simp: map_get_def)

lemma map_has_map_get: "map_has m k = (map_get m k \<noteq> None)"
  by (induction m) (auto simp: map_has_def map_get_def)

lemma set_map_set: "set (map_set m k v) \<subseteq> insert (k, v) (set m)"
  by (induction m) (auto split: if_splits)

lemma set_map_delete: "set (map_delete m k) \<subseteq> set m"
  by (auto simp: map_delete_def)

lemma good_keys_delete: "good_keys m \<Longrightarrow> good_keys (map_delete m k)"
  by (auto simp: good_keys_def keys_map_delete list_all_iff distinct_map_filter)

lemma good_keys_append:
  "good_keys m \<Longrightarrow> \<not> map_has m k \<Longrightarrow> canonical k \<Longrightarrow> good_keys (m @ [(k, v)])"
  by (simp add: good_keys_def map_has_def)

lemma good_keys_cong: "map fst m = map fst m' \<Longrightarrow> good_keys m = good_keys m'"
  by (simp add: good_keys_def)

subsection \<open>Lookup\<close>

lemma find_entry_None: "(find_entry ps q = None) = list_all (\<lambda>e. normalizeId (fst e) \<noteq> normalizeId q) ps"
  by (force simp: find_entry_def find_None_iff list_all_iff)

lemma find_entry_Some:
  "find_entry ps q = Some (k, p) \<Longrightarrow> (k, p) \<in> set ps \<and> normalizeId k = normalizeId q"
  by (induction ps) (auto simp: find_entry_def split: if_splits)

lemma find_entry_map_get: "find_entry ps c = Some (k, q) \<Longrightarrow> map_get ps k = Some q"
proof (induction ps)
  case Nil
  then show ?case by (simp add: find_entry_def)
next
  case (Cons e ps)
  show ?case
  proof (cases "normalizeId (fst e) = normalizeId c")
    case True
    with Cons.prems show ?thesis by (auto simp: find_entry_def map_get_def)
  next
    case False
    with Cons.prems have f: "find_entry ps c = Some (k, q)" by (simp add: find_entry_def)
    with find_entry_Some have "normalizeId k = normalizeId c" by blast
    with False have "fst e \<noteq> k" by auto
    with Cons.IH [OF f] show ?thesis by (cases e) (simp add: map_get_def)
  qed
qed

lemma find_by_socket_Some: "find_by_socket ps s = Some p \<Longrightarrow> socketId p = s"
  by (induction ps) (auto simp: find_by_socket_def split: if_splits)

lemma find_by_socket_iff: "(find_by_socket ps s \<noteq> None) = (s \<in> set (map (\<lambda>e. socketId (snd e)) ps))"
  by (induction ps) (auto simp: find_by_socket_def)

subsection \<open>Registration\<close>

lemma generate_unused_Some:
  "generate_unused ps ds = Some c \<Longrightarrow>
   \<exists>i < length ds. c = generateConnectionId (ds ! i) \<and> \<not> map_has ps c
     \<and> (\<forall>j < i. map_has ps (generateConnectionId (ds ! j)))"
proof (induction ds)
  case Nil
  then show ?case by simp
next
  case (Cons d ds)
  show ?case
  proof (cases "map_has ps (generateConnectionId d)")
    case False
    with Cons.prems show ?thesis by (intro exI [of _ 0]) auto
  next
    case True
    with Cons obtain i where i: "i < length ds" "c = generateConnectionId (ds ! i)"
      "\<not> map_has ps c" "\<forall>j < i. map_has ps (generateConnectionId (ds ! j))"
      by auto
    with True show ?thesis
      by (intro exI [of _ "Suc i"]) (auto simp: less_Suc_eq_0_disj)
  qed
qed

lemma generate_unused_returns:
  "\<exists>d \<in> set ds. \<not> map_has ps (generateConnectionId d) \<Longrightarrow> generate_unused ps ds \<noteq> None"
  by (induction ds) auto

lemma generate_unused_fresh: "generate_unused ps ds = Some c \<Longrightarrow> \<not> map_has ps c"
  using generate_unused_Some by blast

lemma generate_unused_canonical:
  "generate_unused ps ds = Some c \<Longrightarrow> list_all valid_draw ds \<Longrightarrow> canonical c"
  using generate_unused_Some [of ps ds c] canonical_generate
  by (auto simp: list_all_length)

lemma adopt_preferred_Some:
  "adopt_preferred ps pref = Some c \<Longrightarrow> \<not> map_has ps c \<and> canonical c"
  by (auto simp: adopt_preferred_def canonical_formatId normalizeId_no_hyphen
      split: option.splits if_splits)

lemma choose_id_Some:
  "choose_id st pref ds = Some c \<Longrightarrow> list_all valid_draw ds \<Longrightarrow> \<not> map_has (peers st) c \<and> canonical c"
  by (auto simp: choose_id_def split: option.splits
      dest: adopt_preferred_Some generate_unused_fresh generate_unused_canonical)

lemma choose_id_nonempty: "choose_id st pref ds = Some c \<Longrightarrow> c \<noteq> []"
  using generate_unused_Some [of "peers st" ds c]
  by (auto simp: choose_id_def adopt_preferred_def formatId_nonempty generateConnectionId_def
      split: option.splits if_splits)

lemma choose_id_fresh: "choose_id st pref ds = Some c \<Longrightarrow> \<not> map_has (peers st) c"
  by (auto simp: choose_id_def split: option.splits
      dest: adopt_preferred_Some generate_unused_fresh)

lemma register_new:
  "live_registration st sid = None \<Longrightarrow> choose_id st pref ds = Some c \<Longrightarrow>
   register st sid pref ds ice =
     Some (st\<lparr>peers := peers st @ [(c, new_peer sid)],
              connectionIds := map_set (connectionIds st) sid c\<rparr>, Registered c ice)"
  by (simp add: register_def new_peer_def map_set_absent choose_id_fresh)

lemma register_stuck:
  "live_registration st sid = None \<Longrightarrow> choose_id st pref ds = None \<Longrightarrow>
   register st sid pref ds ice = None"
  by (simp add: register_def)

lemma register_live:
  "live_registration st sid = Some c \<Longrightarrow> register st sid pref ds ice = Some (st, Registered c ice)"
  by (simp add: register_def)

lemma live_after_new:
  "c \<noteq> [] \<Longrightarrow>
   live_registration (st\<lparr>peers := peers st @ [(c, p)],
       connectionIds := map_set (connectionIds st) sid c\<rparr>) sid = Some c"
  by (simp add: live_registration_def socket_connectionId_def map_get_map_set map_has_def)

lemma register_peers:
  "register st sid pref ds ice = Some (st', r) \<Longrightarrow>
   peers st' = peers st \<or> (\<exists>c. choose_id st pref ds = Some c \<and> peers st' = peers st @ [(c, new_peer sid)])"
  by (cases "live_registration st sid"; cases "choose_id st pref ds")
     (auto simp: register_live register_new register_stuck)

lemma register_frame:
  "register st sid pref ds ice = Some (st', r) \<Longrightarrow>
   st' = st \<or> (\<exists>c. \<not> map_has (peers st) c \<and> st' = registered_as st sid c)"
  by (cases "live_registration st sid"; cases "choose_id st pref ds")
     (auto simp: register_live register_new register_stuck registered_as_def dest: choose_id_fresh)

text \<open>
  A register call that creates an entry never returns an identifier that is a key of
  the registry, so an entry awaiting its grace-period callback is never taken over.
\<close>

lemma register_never_reuses:
  "live_registration st sid = None \<Longrightarrow> register st sid preferredId draws iceServers = Some (st', Registered c ice)
   \<Longrightarrow> \<not> map_has (peers st) c"
  by (cases "choose_id st preferredId draws")
     (auto simp: register_stuck register_new dest: choose_id_fresh)

lemma held_iff_key:
  assumes "good_keys ps" and "length (normalizeId p) = 9"
  shows "map_has ps (formatId (normalizeId p)) = (\<exists>e \<in> set ps. normalizeId (fst e) = normalizeId p)"
proof
  assume "map_has ps (formatId (normalizeId p))"
  then obtain e where "e \<in> set ps" "fst e = formatId (normalizeId p)"
    by (auto simp: map_has_def)
  with assms(2) show "\<exists>e \<in> set ps. normalizeId (fst e) = normalizeId p"
    by (auto simp: normalizeId_formatId normalizeId_no_hyphen intro!: bexI [of _ e])
next
  assume "\<exists>e \<in> set ps. normalizeId (fst e) = normalizeId p"
  then obtain e where e: "e \<in> set ps" "normalizeId (fst e) = normalizeId p" by blast
  with assms(1) have "canonical (fst e)" by (auto simp: good_keys_def list_all_iff)
  with e(2) have "fst e = formatId (normalizeId p)" by (simp add: canonical_def)
  with e(1) show "map_has ps (formatId (normalizeId p))" by (force simp: map_has_def)
qed

lemma adopt_preferred_adoptable:
  assumes "good_keys (peers st)"
  shows "adopt_preferred (peers st) preferredId =
     (if adoptable st preferredId then Some (formatId (normalizeId (the preferredId))) else None)"
proof (cases preferredId)
  case None
  then show ?thesis by (simp add: adopt_preferred_def adoptable_def)
next
  case (Some p)
  show ?thesis
  proof (cases "length (normalizeId p) = 9")
    case True
    with held_iff_key [OF assms True] Some show ?thesis
      by (auto simp: adopt_preferred_def adoptable_def list_all_iff)
  next
    case False
    with Some show ?thesis by (simp add: adopt_preferred_def adoptable_def)
  qed
qed

subsection \<open>Invariants of the registry\<close>

lemma values_map_adjust:
  "list_all (\<lambda>e. P (snd e)) m \<Longrightarrow> (\<And>v. P (f v)) \<Longrightarrow> list_all (\<lambda>e. P (snd e)) (map_adjust k f m)"
  by (induction m) auto

lemma values_map_delete:
  "list_all (\<lambda>e. P (snd e)) m \<Longrightarrow> list_all (\<lambda>e. P (snd e)) (map_delete m k)"
  by (simp add: map_delete_def list_all_iff)

lemma cib_pair_with:
  "list_all (\<lambda>e. connected_implies_busy (snd e)) ps \<Longrightarrow>
   list_all (\<lambda>e. connected_implies_busy (snd e)) (pair_with key other ps)"
  unfolding pair_with_def
  by (cases key) (auto intro!: values_map_adjust simp: connected_implies_busy_def make_busy_def)

lemma keys_pair_with: "map fst (pair_with key other ps) = map fst ps"
  by (cases key) (simp_all add: pair_with_def keys_map_adjust)

lemma peers_request_connection:
  "peers (fst (request_connection st sid t n pw rid)) = peers st"
  by (simp add: request_connection_def split: option.splits prod.splits)

lemma keys_connection_response:
  "map fst (peers (fst (connection_response st sid rid acc))) = map fst (peers st)"
  by (simp add: connection_response_def keys_pair_with split: option.splits)

lemma cib_connection_response:
  "list_all (\<lambda>e. connected_implies_busy (snd e)) (peers st) \<Longrightarrow>
   list_all (\<lambda>e. connected_implies_busy (snd e)) (peers (fst (connection_response st sid rid acc)))"
  by (auto simp: connection_response_def split: option.splits intro!: cib_pair_with)

lemma keys_end_session: "map fst (peers (fst (end_session st sid t))) = map fst (peers st)"
  by (simp add: end_session_def keys_map_adjust split: option.splits prod.splits)

lemma cib_make_available: "connected_implies_busy (make_available p)"
  by (simp add: connected_implies_busy_def make_available_def)

lemma cib_end_session:
  "list_all (\<lambda>e. connected_implies_busy (snd e)) (peers st) \<Longrightarrow>
   list_all (\<lambda>e. connected_implies_busy (snd e)) (peers (fst (end_session st sid t)))"
  by (auto simp: end_session_def cib_make_available
      split: option.splits prod.splits intro!: values_map_adjust)

lemma keys_release_partner: "map fst (fst (release_partner ps d p)) = map fst ps"
  by (simp add: release_partner_def keys_map_adjust split: option.splits prod.splits)

lemma cib_release_partner:
  "list_all (\<lambda>e. connected_implies_busy (snd e)) ps \<Longrightarrow>
   list_all (\<lambda>e. connected_implies_busy (snd e)) (fst (release_partner ps d p))"
  by (auto simp: release_partner_def cib_make_available
      split: option.splits prod.splits intro!: values_map_adjust)

lemma peers_grace_task:
  "peers (fst (grace_task st d sid)) = peers st
   \<or> peers (fst (grace_task st d sid)) = map_delete (fst (release_partner (peers st) d (the (map_get (peers st) d)))) d"
  by (simp add: grace_task_def split: option.splits prod.splits)

lemma good_keys_grace_task:
  "good_keys (peers st) \<Longrightarrow> good_keys (peers (fst (grace_task st d sid)))"
  using peers_grace_task [of st d sid]
    good_keys_delete [of "fst (release_partner (peers st) d (the (map_get (peers st) d)))" d]
    good_keys_cong [OF keys_release_partner [of "peers st" d "the (map_get (peers st) d)"]]
  by auto

lemma cib_grace_task:
  "list_all (\<lambda>e. connected_implies_busy (snd e)) (peers st) \<Longrightarrow>
   list_all (\<lambda>e. connected_implies_busy (snd e)) (peers (fst (grace_task st d sid)))"
  using peers_grace_task [of st d sid]
    values_map_delete [OF cib_release_partner, of "peers st" d "the (map_get (peers st) d)" d]
  by auto

lemma step_peers_timers [simp]: "peers (st\<lparr>timers := ts\<rparr>) = peers st"
  by simp

lemma good_keys_step:
  assumes "good_keys (peers st)" and "wf_event e" and "step st e = Some (st', out)"
  shows "good_keys (peers st')"
proof (cases e)
  case (Register sid pref ds ice)
  with assms(3) obtain r where "register st sid pref ds ice = Some (st', r)" by auto
  from register_peers [OF this] assms(1,2) Register show ?thesis
    by (auto simp: good_keys_append dest: choose_id_Some)
next
  case (RequestConnection sid t n pw rid)
  with assms(3) have "st' = fst (request_connection st sid t n pw rid)"
    by (auto split: prod.splits)
  with assms(1) show ?thesis by (simp add: peers_request_connection)
next
  case (ConnectionResponse sid rid acc)
  with assms(3) have "st' = fst (connection_response st sid rid acc)" by auto
  with assms(1) good_keys_cong [OF keys_connection_response [of st sid rid acc]]
  show ?thesis by simp
next
  case (Relay sid k t pl)
  with assms(1,3) show ?thesis by (auto simp: relay_def split: option.splits)
next
  case (EndSession sid t)
  with assms(3) have "st' = fst (end_session st sid t)" by auto
  with assms(1) good_keys_cong [OF keys_end_session [of st sid t]]
  show ?thesis by simp
next
  case (Disconnect sid)
  with assms(1,3) show ?thesis by (auto simp: disconnect_def)
next
  case GraceElapsed
  show ?thesis
  proof (cases "timers st")
    case Nil
    with GraceElapsed assms(1,3) show ?thesis by auto
  next
    case (Cons t ts)
    with GraceElapsed assms(3) have "st' = fst (grace_task (st\<lparr>timers := ts\<rparr>) (fst t) (snd t))"
      by (auto split: prod.splits)
    with assms(1) good_keys_grace_task [of "st\<lparr>timers := ts\<rparr>" "fst t" "snd t"]
    show ?thesis by simp
  qed
qed

lemma cib_step:
  assumes "list_all (\<lambda>e. connected_implies_busy (snd e)) (peers st)"
    and "step st e = Some (st', out)"
  shows "list_all (\<lambda>e. connected_implies_busy (snd e)) (peers st')"
proof (cases e)
  case (Register sid pref ds ice)
  with assms(2) obtain r where "register st sid pref ds ice = Some (st', r)" by auto
  from register_peers [OF this] assms(1) show ?thesis
    by (auto simp: connected_implies_busy_def new_peer_def)
next
  case (RequestConnection sid t n pw rid)
  with assms(2) have "st' = fst (request_connection st sid t n pw rid)"
    by (auto split: prod.splits)
  with assms(1) show ?thesis by (simp add: peers_request_connection)
next
  case (ConnectionResponse sid rid acc)
  with assms(2) have "st' = fst (connection_response st sid rid acc)" by auto
  with cib_connection_response [OF assms(1)] show ?thesis by simp
next
  case (Relay sid k t pl)
  with assms show ?thesis by (auto simp: relay_def split: option.splits)
next
  case (EndSession sid t)
  with assms(2) have "st' = fst (end_session st sid t)" by auto
  with cib_end_session [OF assms(1)] show ?thesis by simp
next
  case (Disconnect sid)
  with assms show ?thesis by (auto simp: disconnect_def)
next
  case GraceElapsed
  show ?thesis
  proof (cases "timers st")
    case Nil
    with GraceElapsed assms show ?thesis by auto
  next
    case (Cons t ts)
    with GraceElapsed assms(2) have "st' = fst (grace_task (st\<lparr>timers := ts\<rparr>) (fst t) (snd t))"
      by (auto split: prod.splits)
    with assms(1) cib_grace_task [of "st\<lparr>timers := ts\<rparr>" "fst t" "snd t"]
    show ?thesis by simp
  qed
qed

text \<open>
  The keys of a reachable registry are pairwise different and canonical.
\<close>

lemma reachable_good_keys: "reachable st \<Longrightarrow> good_keys (peers st)"
proof (induction rule: reachable.induct)
  case reachable_init
  show ?case by (simp add: init_def good_keys_def)
next
  case (reachable_step st e st' out)
  then show ?case using good_keys_step by blast
qed

lemma good_keys_normalized_distinct:
  "good_keys m \<Longrightarrow> distinct (map (\<lambda>e. normalizeId (fst e)) m)"
proof -
  assume g: "good_keys m"
  then have "inj_on normalizeId (set (map fst m))"
    by (auto simp: good_keys_def list_all_iff inj_on_def intro: canonical_inj)
  moreover from g have "distinct (map fst m)" by (simp add: good_keys_def)
  ultimately have "distinct (map normalizeId (map fst m))"
    by (subst distinct_map) blast
  then show ?thesis by (simp add: comp_def)
qed

subsection \<open>The grace-period callback\<close>

lemma sockets_map_adjust_available:
  "map (\<lambda>e. socketId (snd e)) (map_adjust k make_available ps) = map (\<lambda>e. socketId (snd e)) ps"
  by (induction ps) (auto simp: make_available_def)

lemma sockets_release_partner:
  "map (\<lambda>e. socketId (snd e)) (fst (release_partner ps d p)) = map (\<lambda>e. socketId (snd e)) ps"
  by (simp add: release_partner_def sockets_map_adjust_available split: option.splits prod.splits)

lemma find_by_socket_release:
  "(find_by_socket (fst (release_partner ps d p)) s \<noteq> None) = (find_by_socket ps s \<noteq> None)"
  unfolding find_by_socket_iff sockets_release_partner ..

lemma reap_kept: "fst (reap ps d pending) = surviving_requests d pending"
  by (induction pending) (auto simp: surviving_requests_def split: prod.splits)

lemma reap_out: "snd (reap ps d pending) = rejection_notices ps d pending"
  by (induction pending)
     (auto simp: rejection_notices_def split: prod.splits option.splits dest: find_by_socket_Some)

lemma rejection_notices_cong:
  "(\<And>s. (find_by_socket ps s \<noteq> None) = (find_by_socket ps' s \<noteq> None)) \<Longrightarrow>
   rejection_notices ps d pending = rejection_notices ps' d pending"
  by (simp add: rejection_notices_def)

lemma grace_task_reclaimed:
  assumes "map_get (peers st) d = Some p" and "socketId p = sid"
  shows "grace_task st d sid =
      (st\<lparr>peers := map_delete (fst (release_partner (peers st) d p)) d,
          pendingConnections := surviving_requests d (pendingConnections st)\<rparr>,
       snd (release_partner (peers st) d p) @ rejection_notices (peers st) d (pendingConnections st))"
proof -
  have "rejection_notices (fst (release_partner (peers st) d p)) d (pendingConnections st)
      = rejection_notices (peers st) d (pendingConnections st)"
    by (rule rejection_notices_cong) (rule find_by_socket_release)
  with assms reap_kept [of "fst (release_partner (peers st) d p)" d "pendingConnections st"]
    reap_out [of "fst (release_partner (peers st) d p)" d "pendingConnections st"]
  show ?thesis
    by (auto simp: grace_task_def split: prod.splits)
qed

text \<open>
  The two early returns of the grace-period callback: the entry is gone, or it carries
  another socket id than the one captured.
\<close>

lemma grace_task_skips:
  "map_get (peers st) d = None \<or> (\<exists>p. map_get (peers st) d = Some p \<and> socketId p \<noteq> sid) \<Longrightarrow>
   grace_task st d sid = (st, [])"
  by (auto simp: grace_task_def)

subsection \<open>Invariant of the executions\<close>

lemma same_sockets_refl: "same_sockets ps ps"
  by (simp add: same_sockets_def)

lemma same_sockets_trans: "same_sockets a b \<Longrightarrow> same_sockets b c \<Longrightarrow> same_sockets a c"
  by (simp add: same_sockets_def)

lemma same_sockets_adjust:
  "(\<And>p. socketId (f p) = socketId p) \<Longrightarrow> same_sockets ps (map_adjust k f ps)"
  by (auto simp: same_sockets_def map_get_map_adjust option.map_comp comp_def)

lemma same_sockets_holds: "same_sockets ps ps' \<Longrightarrow> holds ps' k s = holds ps k s"
proof -
  assume "same_sockets ps ps'"
  then have "map_option socketId (map_get ps' k) = map_option socketId (map_get ps k)"
    by (simp add: same_sockets_def)
  then show ?thesis
    by (cases "map_get ps' k"; cases "map_get ps k") (simp_all add: holds_def)
qed

lemma same_sockets_has: "same_sockets ps ps' \<Longrightarrow> map_has ps' k = map_has ps k"
proof -
  assume "same_sockets ps ps'"
  then have "map_option socketId (map_get ps' k) = map_option socketId (map_get ps k)"
    by (simp add: same_sockets_def)
  then show ?thesis
    by (cases "map_get ps' k"; cases "map_get ps k") (simp_all add: map_has_map_get)
qed

lemma same_sockets_pair_with: "same_sockets ps (pair_with key other ps)"
  by (cases key) (simp_all add: pair_with_def same_sockets_refl same_sockets_adjust make_busy_def)

lemma same_sockets_release: "same_sockets ps (fst (release_partner ps d p))"
  by (simp add: release_partner_def same_sockets_refl same_sockets_adjust make_available_def
      split: option.splits prod.splits)

lemma holds_has: "holds ps k s \<Longrightarrow> map_has ps k"
  by (simp add: holds_def map_has_map_get split: option.splits)

lemma holds_fun: "holds ps k s \<Longrightarrow> holds ps k s' \<Longrightarrow> s = s'"
  by (simp add: holds_def split: option.splits)

lemma map_get_append_new:
  "\<not> map_has ps c \<Longrightarrow> map_get (ps @ [(c, p)]) k = (if k = c then Some p else map_get ps k)"
  by (auto simp: map_has_map_get map_get_def map_add_def split: option.splits)

lemma holds_append_new:
  "\<not> map_has ps c \<Longrightarrow> holds (ps @ [(c, p)]) k s = (if k = c then socketId p = s else holds ps k s)"
  by (simp add: holds_def map_get_append_new)

lemma has_append_new: "map_has (ps @ [(c, p)]) k = (k = c \<or> map_has ps k)"
  by (auto simp: map_has_def)

lemma holds_delete: "holds (map_delete ps d) k s = (k \<noteq> d \<and> holds ps k s)"
  by (simp add: holds_def map_get_map_delete)

lemma has_delete: "map_has (map_delete ps d) k = (k \<noteq> d \<and> map_has ps k)"
  by (simp add: map_has_map_get map_get_map_delete)

lemma connection_response_frame:
  "\<exists>P Q. fst (connection_response st sid rid acc) = st\<lparr>peers := P, pendingConnections := Q\<rparr>
     \<and> same_sockets (peers st) P \<and> set Q \<subseteq> set (pendingConnections st)"
proof -
  let ?two = "\<lambda>req. pair_with (viewerConnectionId req) (Some (hostConnectionId req))
     (pair_with (Some (hostConnectionId req)) (viewerConnectionId req) (peers st))"
  have two: "same_sockets (peers st) (?two req)" for req
    using same_sockets_trans [OF same_sockets_pair_with same_sockets_pair_with] .
  show ?thesis
  proof (cases "map_get (pendingConnections st) rid")
    case None
    then have "fst (connection_response st sid rid acc)
        = st\<lparr>peers := peers st, pendingConnections := pendingConnections st\<rparr>"
      by (simp add: connection_response_def)
    then show ?thesis using same_sockets_refl by blast
  next
    case (Some req)
    show ?thesis
    proof (cases "find_by_socket (peers st) (viewerSocketId req) \<noteq> None \<and> acc")
      case True
      with Some have "fst (connection_response st sid rid acc)
          = st\<lparr>peers := ?two req, pendingConnections := map_delete (pendingConnections st) rid\<rparr>"
        by (auto simp: connection_response_def)
      with two [of req] set_map_delete show ?thesis by blast
    next
      case False
      with Some have "fst (connection_response st sid rid acc)
          = st\<lparr>peers := peers st, pendingConnections := map_delete (pendingConnections st) rid\<rparr>"
        by (auto simp: connection_response_def split: option.splits)
      with same_sockets_refl set_map_delete show ?thesis by blast
    qed
  qed
qed

lemma end_session_frame:
  "\<exists>P. fst (end_session st sid t) = st\<lparr>peers := P\<rparr> \<and> same_sockets (peers st) P"
proof -
  have a: "same_sockets ps (map_adjust k make_available ps)" for ps k
    by (rule same_sockets_adjust) (simp add: make_available_def)
  define ps1 where "ps1 = (case find_entry (peers st) t of None \<Rightarrow> peers st
      | Some e \<Rightarrow> map_adjust (fst e) make_available (peers st))"
  define ps2 where "ps2 = (case socket_connectionId st sid of None \<Rightarrow> ps1
      | Some own \<Rightarrow> map_adjust own make_available ps1)"
  have 1: "same_sockets (peers st) ps1"
    unfolding ps1_def by (cases "find_entry (peers st) t") (simp_all add: same_sockets_refl a)
  have 2: "same_sockets ps1 ps2"
    unfolding ps2_def by (cases "socket_connectionId st sid") (simp_all add: same_sockets_refl a)
  have "fst (end_session st sid t) = st\<lparr>peers := ps2\<rparr>"
    by (simp add: end_session_def ps1_def ps2_def split: option.splits prod.splits)
  with same_sockets_trans [OF 1 2] show ?thesis by blast
qed

lemma request_connection_frame:
  "fst (request_connection st sid t n pw rid) = st
   \<or> (\<exists>k p. find_entry (peers st) t = Some (k, p)
        \<and> fst (request_connection st sid t n pw rid)
            = st\<lparr>pendingConnections := map_set (pendingConnections st) rid (new_request st sid k p)\<rparr>)"
  by (auto simp: request_connection_def new_request_def split: option.splits)

lemma grace_task_frame:
  "holds (peers st) d s \<Longrightarrow>
   \<exists>P. fst (grace_task st d s)
      = st\<lparr>peers := map_delete P d, pendingConnections := surviving_requests d (pendingConnections st)\<rparr>
     \<and> same_sockets (peers st) P"
proof -
  assume "holds (peers st) d s"
  then obtain p where "map_get (peers st) d = Some p" "socketId p = s"
    by (auto simp: holds_def split: option.splits)
  from grace_task_reclaimed [OF this] same_sockets_release [of "peers st" d p]
  show ?thesis by auto
qed

lemma holds_opt_iff: "holds_opt ps key sid = (\<forall>k. key = Some k \<longrightarrow> holds ps k sid)"
  by (cases key) (simp_all add: holds_opt_def)

lemmas live_inv_defs =
  live_inv_def sockets_ok_def live_registered_def timers_hold_def requests_hold_def
  socket_connectionId_def list_all_iff holds_opt_iff

lemma live_inv_same_sockets:
  assumes "live_inv w" and "same_sockets (peers (server w)) P"
    and "set Q \<subseteq> set (pendingConnections (server w))"
  shows "live_inv (w\<lparr>server := (server w)\<lparr>peers := P, pendingConnections := Q\<rparr>\<rparr>)"
  using assms(1,3)
  by (auto simp: live_inv_defs same_sockets_holds [OF assms(2)] same_sockets_has [OF assms(2)])

lemma connIds_unseen:
  "\<forall>c \<in> set m. fst c \<in> S \<Longrightarrow> sid \<notin> S \<Longrightarrow> map_get m sid = None"
  by (induction m) (auto simp: map_get_def)

lemma live_inv_connect:
  assumes "live_inv w" and "sid \<notin> set (seen w)"
  shows "live_inv (w\<lparr>connected := sid # connected w, seen := sid # seen w\<rparr>)"
proof -
  from assms have "map_get (connectionIds (server w)) sid = None"
    by (auto simp: live_inv_defs intro: connIds_unseen)
  with assms show ?thesis by (auto simp: live_inv_defs)
qed

lemma live_inv_register:
  assumes "live_inv w" and "sid \<in> set (seen w)" and "\<not> map_has (peers (server w)) c"
  shows "live_inv (w\<lparr>server := registered_as (server w) sid c\<rparr>)"
proof -
  note h = holds_append_new [OF assms(3)]
  have nh: "\<not> holds (peers (server w)) c s" for s
    using assms(3) holds_has by blast
  have s: "set (map_set (connectionIds (server w)) sid c)
      \<subseteq> insert (sid, c) (set (connectionIds (server w)))"
    by (rule set_map_set)
  have 1: "sockets_ok (w\<lparr>server := registered_as (server w) sid c\<rparr>)"
    using assms(1,2) s by (auto simp: live_inv_defs registered_as_def)
  have 2: "live_registered (w\<lparr>server := registered_as (server w) sid c\<rparr>)"
    using assms(1) nh
    by (auto simp: live_inv_defs registered_as_def h map_get_map_set new_peer_def
       )
  have 3: "timers_hold (server (w\<lparr>server := registered_as (server w) sid c\<rparr>))"
    using assms(1) nh by (auto simp: live_inv_defs registered_as_def h)
  have 4: "requests_hold (server (w\<lparr>server := registered_as (server w) sid c\<rparr>))"
    using assms(1) nh
    by (auto simp: live_inv_defs registered_as_def h has_append_new)
  from 1 2 3 4 show ?thesis by (simp add: live_inv_def)
qed

lemma live_inv_request:
  assumes "live_inv w" and "sid \<in> set (connected w)"
    and "find_entry (peers (server w)) t = Some (k, p)"
  shows "live_inv (w\<lparr>server := (server w)\<lparr>pendingConnections :=
      map_set (pendingConnections (server w)) rid (new_request (server w) sid k p)\<rparr>\<rparr>)"
proof -
  from assms(3) have "map_has (peers (server w)) k"
    using find_entry_map_get map_has_map_get by fastforce
  moreover from assms(1,2)
  have "holds_opt (peers (server w)) (socket_connectionId (server w) sid) sid"
    by (auto simp: live_inv_def live_registered_def list_all_iff)
  ultimately have new: "map_has (peers (server w)) (hostConnectionId (new_request (server w) sid k p))
      \<and> holds_opt (peers (server w)) (viewerConnectionId (new_request (server w) sid k p))
          (viewerSocketId (new_request (server w) sid k p))"
    by (simp add: new_request_def)
  have "map_has (peers (server w)) (hostConnectionId (snd e))
      \<and> holds_opt (peers (server w)) (viewerConnectionId (snd e)) (viewerSocketId (snd e))"
    if "e \<in> set (map_set (pendingConnections (server w)) rid (new_request (server w) sid k p))"
    for e
  proof -
    from that set_map_set
    have "e = (rid, new_request (server w) sid k p) \<or> e \<in> set (pendingConnections (server w))"
      by fastforce
    then show ?thesis
    proof
      assume "e = (rid, new_request (server w) sid k p)"
      with new show ?thesis by simp
    next
      assume "e \<in> set (pendingConnections (server w))"
      with assms(1) show ?thesis by (simp add: live_inv_def requests_hold_def list_all_iff)
    qed
  qed
  then have "requests_hold ((server w)\<lparr>pendingConnections :=
      map_set (pendingConnections (server w)) rid (new_request (server w) sid k p)\<rparr>)"
    by (simp add: requests_hold_def list_all_iff)
  with assms(1) show ?thesis
    by (simp add: live_inv_def sockets_ok_def live_registered_def timers_hold_def
        socket_connectionId_def)
qed

lemma live_inv_disconnect:
  assumes "live_inv w" and "sid \<in> set (connected w)"
  shows "live_inv (w\<lparr>server := disconnect (server w) sid,
      connected := removeAll sid (connected w)\<rparr>)"
proof (cases "truthy (socket_connectionId (server w) sid)")
  case False
  with assms show ?thesis by (auto simp: live_inv_defs disconnect_def)
next
  case True
  then obtain v where v: "map_get (connectionIds (server w)) sid = Some v"
    by (auto simp: truthy_def socket_connectionId_def split: option.splits)
  with assms have "holds (peers (server w)) v sid"
    by (auto simp: live_inv_defs)
  with assms True v show ?thesis
    by (auto simp: live_inv_defs disconnect_def)
qed

lemma live_inv_grace:
  assumes "live_inv w" and "timers (server w) = (d, s) # ts"
  shows "live_inv (w\<lparr>server := fst (grace_task ((server w)\<lparr>timers := ts\<rparr>) d s)\<rparr>)"
proof -
  from assms have hd: "holds (peers (server w)) d s"
    by (simp add: live_inv_def timers_hold_def)
  then obtain P where
    g: "fst (grace_task ((server w)\<lparr>timers := ts\<rparr>) d s)
      = (server w)\<lparr>timers := ts, peers := map_delete P d,
          pendingConnections := surviving_requests d (pendingConnections (server w))\<rparr>"
    and ss: "same_sockets (peers (server w)) P"
    using grace_task_frame [of "(server w)\<lparr>timers := ts\<rparr>" d s] by auto
  note h = holds_delete same_sockets_holds [OF ss] has_delete same_sockets_has [OF ss]
  from assms have dead: "s \<notin> set (connected w)" and fresh: "s \<notin> snd ` set ts"
    by (auto simp: live_inv_defs)
  have 1: "sockets_ok (w\<lparr>server := fst (grace_task ((server w)\<lparr>timers := ts\<rparr>) d s)\<rparr>)"
    using assms by (auto simp: live_inv_defs g)
  have "k \<noteq> d \<and> holds (peers (server w)) k sid"
    if "sid \<in> set (connected w)" and "map_get (connectionIds (server w)) sid = Some k" for sid k
  proof -
    from that assms(1) have k: "holds (peers (server w)) k sid" by (auto simp: live_inv_defs)
    with hd dead that(1) holds_fun have "k \<noteq> d" by blast
    with k show ?thesis by simp
  qed
  then have 2: "live_registered (w\<lparr>server := fst (grace_task ((server w)\<lparr>timers := ts\<rparr>) d s)\<rparr>)"
    by (simp add: live_registered_def socket_connectionId_def list_all_iff holds_opt_iff g h)
  have 3: "timers_hold (server (w\<lparr>server := fst (grace_task ((server w)\<lparr>timers := ts\<rparr>) d s)\<rparr>))"
    using assms fresh hd
    by (auto simp: live_inv_defs g h dest: holds_fun)
  have 4: "requests_hold (server (w\<lparr>server := fst (grace_task ((server w)\<lparr>timers := ts\<rparr>) d s)\<rparr>))"
    using assms(1)
    by (auto simp: live_inv_defs g h surviving_requests_def)
  from 1 2 3 4 show ?thesis by (simp add: live_inv_def)
qed

lemma live_inv_boot: "live_inv boot"
  by (simp add: live_inv_defs boot_def init_def)

lemma live_inv_act:
  assumes "live_inv w" and "enabled w a" and "act w a = Some (w', out)"
  shows "live_inv w'"
proof (cases a)
  case (Connect sid)
  with assms(2,3) have "sid \<notin> set (seen w)"
    and "w' = w\<lparr>connected := sid # connected w, seen := sid # seen w\<rparr>"
    by (auto simp: enabled_def act_def)
  with live_inv_connect [OF assms(1)] show ?thesis by simp
next
  case (Handle e)
  show ?thesis
  proof (cases e)
    case (Register sid pref ds ice)
    with Handle assms(2,3) obtain st' r where
      r: "register (server w) sid pref ds ice = Some (st', r)" and w': "w' = w\<lparr>server := st'\<rparr>"
      and seen: "sid \<in> set (seen w)"
      by (auto simp: enabled_def act_def split: option.splits)
    from register_frame [OF r] show ?thesis
    proof
      assume "st' = server w"
      with w' assms(1) show ?thesis by simp
    next
      assume "\<exists>c. \<not> map_has (peers (server w)) c \<and> st' = registered_as (server w) sid c"
      with w' live_inv_register [OF assms(1) seen] show ?thesis by auto
    qed
  next
    case (RequestConnection sid t n pw rid)
    with Handle assms(2,3) have
      w': "w' = w\<lparr>server := fst (request_connection (server w) sid t n pw rid)\<rparr>"
      and conn: "sid \<in> set (connected w)"
      by (auto simp: enabled_def act_def split: option.splits prod.splits)
    from request_connection_frame [of "server w" sid t n pw rid] show ?thesis
    proof
      assume "fst (request_connection (server w) sid t n pw rid) = server w"
      with w' assms(1) show ?thesis by simp
    next
      assume "\<exists>k p. find_entry (peers (server w)) t = Some (k, p)
        \<and> fst (request_connection (server w) sid t n pw rid)
            = (server w)\<lparr>pendingConnections :=
                map_set (pendingConnections (server w)) rid (new_request (server w) sid k p)\<rparr>"
      with w' live_inv_request [OF assms(1) conn] show ?thesis by auto
    qed
  next
    case (ConnectionResponse sid rid acc)
    with Handle assms(3) have
      w': "w' = w\<lparr>server := fst (connection_response (server w) sid rid acc)\<rparr>"
      by (auto simp: act_def split: prod.splits)
    from connection_response_frame [of "server w" sid rid acc] w'
      live_inv_same_sockets [OF assms(1)]
    show ?thesis by auto
  next
    case (Relay sid kind t pl)
    with Handle assms(3) have "w' = w"
      by (auto simp: act_def relay_def split: option.splits)
    with assms(1) show ?thesis by simp
  next
    case (EndSession sid t)
    with Handle assms(3) have w': "w' = w\<lparr>server := fst (end_session (server w) sid t)\<rparr>"
      by (auto simp: act_def split: prod.splits)
    from end_session_frame [of "server w" sid t] obtain P where
      P: "fst (end_session (server w) sid t) = (server w)\<lparr>peers := P\<rparr>"
        "same_sockets (peers (server w)) P"
      by blast
    from live_inv_same_sockets [OF assms(1) P(2), of "pendingConnections (server w)"] w' P(1)
    show ?thesis by simp
  next
    case (Disconnect sid)
    with Handle assms(2,3) have
      "w' = w\<lparr>server := disconnect (server w) sid, connected := removeAll sid (connected w)\<rparr>"
      and "sid \<in> set (connected w)"
      by (auto simp: enabled_def act_def)
    with live_inv_disconnect [OF assms(1)] show ?thesis by simp
  next
    case GraceElapsed
    show ?thesis
    proof (cases "timers (server w)")
      case Nil
      with GraceElapsed Handle assms(3) have "w' = w" by (auto simp: act_def)
      with assms(1) show ?thesis by simp
    next
      case (Cons t ts)
      with GraceElapsed Handle assms(3) have
        "w' = w\<lparr>server := fst (grace_task ((server w)\<lparr>timers := ts\<rparr>) (fst t) (snd t))\<rparr>"
        by (auto simp: act_def split: prod.splits)
      with live_inv_grace [OF assms(1), of "fst t" "snd t" ts] Cons show ?thesis by simp
    qed
  qed
qed

text \<open>
  The invariant of the executions: connected sockets that hold an identifier own its
  entry, scheduled callbacks belong to disconnected sockets and their entries are still
  present, and pending requests refer to registered peers.
\<close>

lemma live_reachable_inv: "live_reachable w \<Longrightarrow> live_inv w"
proof (induction rule: live_reachable.induct)
  case live_boot
  show ?case by (rule live_inv_boot)
next
  case (live_act w a w' out)
  then show ?case using live_inv_act by blast
qed

lemma live_reachable_reachable: "live_reachable w \<Longrightarrow> reachable (server w)"
proof (induction rule: live_reachable.induct)
  case live_boot
  show ?case by (simp add: boot_def reachable_init)
next
  case (live_act w a w' out)
  show ?case
  proof (cases a)
    case (Connect sid)
    with live_act show ?thesis by (auto simp: act_def)
  next
    case (Handle e)
    with live_act(2,3) obtain st' where "wf_event e" "step (server w) e = Some (st', out)"
      "server w' = st'"
      by (auto simp: act_def enabled_def split: option.splits)
    with live_act.IH show ?thesis using reachable_step by blast
  qed
qed

text \<open>
  In every execution of the server, a scheduled grace-period callback finds the entry of
  its identifier present and carrying the socket id it captured: neither early return
  of the callback is ever taken.
\<close>

lemma scheduled_callback_reclaims:
  assumes "live_reachable w" and "timers (server w) = (d, s) # ts"
  shows "\<exists>p. map_get (peers (server w)) d = Some p \<and> socketId p = s"
proof -
  from live_reachable_inv [OF assms(1)] assms(2) have "holds (peers (server w)) d s"
    by (simp add: live_inv_def timers_hold_def)
  then show ?thesis by (auto simp: holds_def split: option.splits)
qed

text \<open>
  In every execution of the server, the host of a pending request is registered, and so
  is the viewer when the request recorded its identifier.
\<close>

lemma pending_request_registered:
  assumes "live_reachable w" and "map_get (pendingConnections (server w)) rid = Some req"
  shows "map_get (peers (server w)) (hostConnectionId req) \<noteq> None
    \<and> (viewerConnectionId req = Some v \<longrightarrow>
         (\<exists>p. map_get (peers (server w)) v = Some p \<and> socketId p = viewerSocketId req)
         \<and> find_by_socket (peers (server w)) (viewerSocketId req) \<noteq> None)"
proof -
  from assms(2) have "(rid, req) \<in> set (pendingConnections (server w))"
    by (simp add: map_get_def map_of_SomeD)
  with live_reachable_inv [OF assms(1)] have
    h: "map_has (peers (server w)) (hostConnectionId req)"
    and v: "holds_opt (peers (server w)) (viewerConnectionId req) (viewerSocketId req)"
    by (auto simp: live_inv_def requests_hold_def list_all_iff)
  have "(\<exists>p. map_get (peers (server w)) v = Some p \<and> socketId p = viewerSocketId req)
         \<and> find_by_socket (peers (server w)) (viewerSocketId req) \<noteq> None"
    if "viewerConnectionId req = Some v"
  proof -
    from that v obtain p where p: "map_get (peers (server w)) v = Some p"
      "socketId p = viewerSocketId req"
      by (auto simp: holds_opt_def holds_def split: option.splits)
    then have "(v, p) \<in> set (peers (server w))" by (simp add: map_get_def map_of_SomeD)
    with p(2) have "viewerSocketId req \<in> set (map (\<lambda>e. socketId (snd e)) (peers (server w)))"
      by force
    with find_by_socket_iff [of "peers (server w)" "viewerSocketId req"]
    have "find_by_socket (peers (server w)) (viewerSocketId req) \<noteq> None" by blast
    with p show ?thesis by blast
  qed
  with h show ?thesis by (simp add: map_has_map_get)
qed

subsection \<open>Concrete executions\<close>

lemmas handler_defs =
  register_def live_registration_def choose_id_def adopt_preferred_def
  request_connection_def connection_response_def pair_with_def relay_def end_session_def
  disconnect_def grace_task_def release_partner_def
  find_entry_def findPeerByConnectionId_def find_by_socket_def socket_connectionId_def
  make_busy_def make_available_def truthy_def or_else_def or_undefined_def
  map_has_def map_get_def map_delete_def normalizeId_def formatId_def slice_def
  generateConnectionId_def digit_char_def init_def PeerNotFound_def PeerBusy_def

text \<open>
  Playing a list of actions from the empty server makes an execution.
\<close>

lemma play_reachable:
  "live_reachable w \<Longrightarrow> play w as = Some (w', out) \<Longrightarrow> live_reachable w'"
proof (induction as arbitrary: w out)
  case Nil
  then show ?case by simp
next
  case (Cons a as)
  from Cons.prems(2) obtain w1 out1 w2 out2 where
    e: "enabled w a" and s: "act w a = Some (w1, out1)" and r: "play w1 as = Some (w2, out2)"
    and "w' = w2"
    by (auto split: if_splits option.splits prod.splits)
  from Cons.prems(1) e s have "live_reachable w1" by (rule live_act)
  with Cons.IH [of w1 out2] r \<open>w' = w2\<close> show ?case by simp
qed

lemmas eval_defs = handler_defs new_peer_def busy_peer_def toString.simps
  enabled_def act_def boot_def valid_draw_def

lemmas world_defs = eval_defs three_ids_def two_ids_def accept_request_def

lemma play_reconnect:
  "play boot reconnect_actions =
     Some (\<lparr>server = reconnect_final, connected = [''s3'', ''s2''], seen = [''s3'', ''s2'', ''s1'']\<rparr>,
       [(''s1'', ConnectionRequest ''r1'' (Some ''222-222-222'') ''viewer'' None),
        (''s2'', ConnectionAccepted ''111-111-111''),
        (''s2'', PeerDisconnected ''111-111-111'')])"
  by (simp add: reconnect_actions_def reconnect_final_def world_defs)

lemma play_late_request:
  "play boot late_request_actions =
     Some (\<lparr>server = late_request_state, connected = [''s2'', ''s1''], seen = [''s2'', ''s1'']\<rparr>,
       [(''s1'', ConnectionRequest ''r1'' None ''Unknown'' None)])"
  by (simp add: late_request_actions_def late_request_state_def world_defs)

lemma play_late_registration:
  "play boot late_registration_actions =
     Some (\<lparr>server = late_registration_final, connected = [''s2'', ''s1''], seen = [''s2'', ''s1'']\<rparr>,
       [(''s1'', ConnectionRequest ''r1'' None ''Unknown'' None),
        (''s2'', ConnectionAccepted ''111-111-111'')])"
  by (simp add: late_registration_actions_def late_request_actions_def
      late_registration_final_def world_defs)

lemma play_overlapping_accepts:
  "play boot overlapping_accepts_actions =
     Some (\<lparr>server = overlapping_accepts_final, connected = [''s3'', ''s2'', ''s1''],
            seen = [''s3'', ''s2'', ''s1'']\<rparr>,
       [(''s3'', ConnectionRequest ''r2'' (Some ''222-222-222'') ''Unknown'' None),
        (''s1'', ConnectionRequest ''r1'' (Some ''222-222-222'') ''Unknown'' None),
        (''s2'', ConnectionAccepted ''111-111-111''),
        (''s2'', ConnectionAccepted ''333-333-333'')])"
  by (simp add: overlapping_accepts_actions_def overlapping_accepts_final_def world_defs)

lemma play_unnotified_viewer:
  "play boot unnotified_viewer_actions =
     Some (\<lparr>server = unnotified_before, connected = [''s2''], seen = [''s2'', ''s1'']\<rparr>,
       [(''s1'', ConnectionRequest ''r1'' None ''Unknown'' None)])"
  by (simp add: unnotified_viewer_actions_def unnotified_before_def world_defs)

lemma play_reclaim:
  "play boot reclaim_actions =
     Some (\<lparr>server = reclaim_state, connected = [''s3'', ''s2''], seen = [''s3'', ''s2'', ''s1'']\<rparr>,
       [(''s1'', ConnectionRequest ''r2'' (Some ''333-333-333'') ''Unknown'' None),
        (''s1'', ConnectionRequest ''r1'' (Some ''222-222-222'') ''Unknown'' None),
        (''s3'', ConnectionRequest ''r3'' (Some ''111-111-111'') ''Unknown'' None),
        (''s2'', ConnectionAccepted ''111-111-111'')])"
  by (simp add: reclaim_actions_def reclaim_state_def world_defs)

lemma play_accept:
  "play boot accept_actions =
     Some (\<lparr>server = accept_state, connected = [''s2'', ''s1''], seen = [''s2'', ''s1'']\<rparr>,
       [(''s1'', ConnectionRequest ''r1'' (Some ''222-222-222'') ''Unknown'' None)])"
  by (simp add: accept_actions_def accept_state_def world_defs)

lemma play_lone_host:
  "play boot lone_host_actions =
     Some (\<lparr>server = lone_host, connected = [''s2'', ''s1''], seen = [''s2'', ''s1'']\<rparr>, [])"
  by (simp add: lone_host_actions_def lone_host_def world_defs)

lemma play_one_peer:
  "play boot one_peer_actions =
     Some (\<lparr>server = one_peer, connected = [''s1''], seen = [''s1'']\<rparr>, [])"
  by (simp add: one_peer_actions_def one_peer_def world_defs)

lemma live_late_request:
  "live_reachable \<lparr>server = late_request_state, connected = [''s2'', ''s1''], seen = [''s2'', ''s1'']\<rparr>"
  by (rule play_reachable [OF live_boot play_late_request])

lemma live_accept:
  "live_reachable \<lparr>server = accept_state, connected = [''s2'', ''s1''], seen = [''s2'', ''s1'']\<rparr>"
  by (rule play_reachable [OF live_boot play_accept])

lemma live_reclaim:
  "live_reachable \<lparr>server = reclaim_state, connected = [''s3'', ''s2''], seen = [''s3'', ''s2'', ''s1'']\<rparr>"
  by (rule play_reachable [OF live_boot play_reclaim])

lemma reachable_late_registration: "reachable late_registration_final"
  using live_reachable_reachable [OF play_reachable [OF live_boot play_late_registration]]
  by simp

lemma reachable_overlapping_accepts: "reachable overlapping_accepts_final"
  using live_reachable_reachable [OF play_reachable [OF live_boot play_overlapping_accepts]]
  by simp

lemma reachable_one_peer: "reachable one_peer"
  using live_reachable_reachable [OF play_reachable [OF live_boot play_one_peer]]
  by simp

subsection \<open>C1: status and connectedTo\<close>

text \<open>
  C1 as stated fails at the end of two executions. When a socket requests a connection
  before it registers, then registers, and the host accepts, the host is Busy with
  connectedTo unset. When a viewer has requests pending at two hosts and both accept,
  all three peers are Busy, the first host's connectedTo names the viewer and the
  viewer's connectedTo names the second host.
\<close>

theorem pairing_invariant_counterexample:
  "play boot late_registration_actions =
     Some (\<lparr>server = late_registration_final, connected = [''s2'', ''s1''], seen = [''s2'', ''s1'']\<rparr>,
       [(''s1'', ConnectionRequest ''r1'' None ''Unknown'' None),
        (''s2'', ConnectionAccepted ''111-111-111'')])
   \<and> map_get (peers late_registration_final) ''111-111-111'' = Some (busy_peer ''s1'' None)
   \<and> \<not> busy_iff_connected (busy_peer ''s1'' None)
   \<and> \<not> pairing_invariant late_registration_final
   \<and> play boot overlapping_accepts_actions =
     Some (\<lparr>server = overlapping_accepts_final, connected = [''s3'', ''s2'', ''s1''],
            seen = [''s3'', ''s2'', ''s1'']\<rparr>,
       [(''s3'', ConnectionRequest ''r2'' (Some ''222-222-222'') ''Unknown'' None),
        (''s1'', ConnectionRequest ''r1'' (Some ''222-222-222'') ''Unknown'' None),
        (''s2'', ConnectionAccepted ''111-111-111''),
        (''s2'', ConnectionAccepted ''333-333-333'')])
   \<and> map_get (peers overlapping_accepts_final) ''111-111-111''
       = Some (busy_peer ''s1'' (Some ''222-222-222''))
   \<and> map_get (peers overlapping_accepts_final) ''222-222-222''
       = Some (busy_peer ''s2'' (Some ''333-333-333''))
   \<and> \<not> symmetric_pairs (peers overlapping_accepts_final)
   \<and> \<not> pairing_invariant overlapping_accepts_final"
proof -
  have a: "\<not> busy_iff_connected (busy_peer ''s1'' None)"
    "\<not> list_all (\<lambda>e. busy_iff_connected (snd e)) (peers late_registration_final)"
    "map_get (peers late_registration_final) ''111-111-111'' = Some (busy_peer ''s1'' None)"
    by (simp_all add: late_registration_final_def busy_iff_connected_def busy_peer_def
        new_peer_def map_get_def)
  have b: "\<not> symmetric_pairs (peers overlapping_accepts_final)"
    "map_get (peers overlapping_accepts_final) ''111-111-111''
       = Some (busy_peer ''s1'' (Some ''222-222-222''))"
    "map_get (peers overlapping_accepts_final) ''222-222-222''
       = Some (busy_peer ''s2'' (Some ''333-333-333''))"
    by (simp_all add: overlapping_accepts_final_def symmetric_pairs_def busy_peer_def map_get_def)
  from a b play_late_registration play_overlapping_accepts show ?thesis
    by (simp add: pairing_invariant_def)
qed

text \<open>
  C1 (as amended). In every reachable state every peer record whose connectedTo is set
  has status Busy; equivalently every Available record has connectedTo null. The
  initial state satisfies this and every operation (register, request-connection,
  connection-response, the relayed events, end-session, disconnect and the grace-period
  callback) preserves it, which is how the proof goes. The converse and the symmetry of
  pairing are not invariants of the code.
\<close>

theorem connected_implies_busy_invariant:
  "reachable st \<Longrightarrow> list_all (\<lambda>e. connected_implies_busy (snd e)) (peers st)"
proof (induction rule: reachable.induct)
  case reachable_init
  show ?case by (simp add: init_def)
next
  case (reachable_step st e st' out)
  then show ?case using cib_step by blast
qed

text \<open>
  C1 (as amended) at the reachable state in which one viewer was accepted by two hosts.
\<close>

theorem connected_implies_busy_invariant_witness:
  "reachable overlapping_accepts_final
   \<and> list_all (\<lambda>e. connected_implies_busy (snd e)) (peers overlapping_accepts_final)
   \<and> map_get (peers overlapping_accepts_final) ''222-222-222''
       = Some (busy_peer ''s2'' (Some ''333-333-333''))"
  using connected_implies_busy_invariant [OF reachable_overlapping_accepts]
    reachable_overlapping_accepts
  by (simp add: overlapping_accepts_final_def map_get_def)

subsection \<open>C2: the identifier a registration receives\<close>

text \<open>
  C2 (as amended). For a register call in a reachable state by a socket without a live
  registration: if a non-empty preferredId is supplied whose hyphen-stripped form has
  exactly 9 characters (of any kind) and no registered peer has the same hyphen-stripped
  identifier, that identifier is adopted, written as three groups of three, for the new
  entry. In every other case the identifier is generated: it is the formatted 9-digit
  number of the first draw that is not a key of the registry, every earlier draw having
  collided; while every draw collides the call has not returned. The call returns as
  soon as some draw does not collide.
\<close>

theorem register_chooses_identifier:
  assumes "reachable st" and "live_registration st sid = None" and "list_all valid_draw draws"
  shows
    "(adoptable st preferredId \<longrightarrow>
        register st sid preferredId draws iceServers =
          Some (registered_as st sid (formatId (normalizeId (the preferredId))),
                Registered (formatId (normalizeId (the preferredId))) iceServers)
        \<and> normalizeId (formatId (normalizeId (the preferredId))) = normalizeId (the preferredId))
     \<and> (\<not> adoptable st preferredId \<longrightarrow>
          (case generate_unused (peers st) draws of
             None \<Rightarrow> register st sid preferredId draws iceServers = None
           | Some c \<Rightarrow>
               register st sid preferredId draws iceServers =
                 Some (registered_as st sid c, Registered c iceServers)
               \<and> id_format c \<and> \<not> map_has (peers st) c
               \<and> (\<exists>i < length draws. c = generateConnectionId (draws ! i)
                     \<and> (\<forall>j < i. map_has (peers st) (generateConnectionId (draws ! j))))))
     \<and> ((\<exists>d \<in> set draws. \<not> map_has (peers st) (generateConnectionId d)) \<longrightarrow>
          register st sid preferredId draws iceServers \<noteq> None)"
proof -
  from assms(1) have gk: "good_keys (peers st)" by (rule reachable_good_keys)
  note ap = adopt_preferred_adoptable [OF gk, of preferredId]
  have 1: "register st sid preferredId draws iceServers =
          Some (registered_as st sid (formatId (normalizeId (the preferredId))),
                Registered (formatId (normalizeId (the preferredId))) iceServers)
        \<and> normalizeId (formatId (normalizeId (the preferredId))) = normalizeId (the preferredId)"
    if a: "adoptable st preferredId"
  proof -
    from a ap have "choose_id st preferredId draws = Some (formatId (normalizeId (the preferredId)))"
      by (simp add: choose_id_def)
    from register_new [OF assms(2) this] have
      "register st sid preferredId draws iceServers =
          Some (registered_as st sid (formatId (normalizeId (the preferredId))),
                Registered (formatId (normalizeId (the preferredId))) iceServers)"
      by (simp add: registered_as_def)
    moreover from a have "length (normalizeId (the preferredId)) = 9"
      by (auto simp: adoptable_def split: option.splits)
    ultimately show ?thesis by (simp add: normalizeId_formatId normalizeId_no_hyphen)
  qed
  have ch: "choose_id st preferredId draws = generate_unused (peers st) draws"
    if "\<not> adoptable st preferredId"
    using that ap by (simp add: choose_id_def)
  have 2: "(case generate_unused (peers st) draws of
             None \<Rightarrow> register st sid preferredId draws iceServers = None
           | Some c \<Rightarrow>
               register st sid preferredId draws iceServers =
                 Some (registered_as st sid c, Registered c iceServers)
               \<and> id_format c \<and> \<not> map_has (peers st) c
               \<and> (\<exists>i < length draws. c = generateConnectionId (draws ! i)
                     \<and> (\<forall>j < i. map_has (peers st) (generateConnectionId (draws ! j)))))"
    if n: "\<not> adoptable st preferredId"
  proof (cases "generate_unused (peers st) draws")
    case None
    with ch [OF n] register_stuck [OF assms(2)] show ?thesis by simp
  next
    case (Some c)
    from generate_unused_Some [OF Some] obtain i where
      i: "i < length draws" "c = generateConnectionId (draws ! i)" "\<not> map_has (peers st) c"
        "\<forall>j < i. map_has (peers st) (generateConnectionId (draws ! j))"
      by blast
    from i(1) assms(3) have "valid_draw (draws ! i)" by (simp add: list_all_length)
    with i(2) have "id_format c" by (simp add: generate_format)
    moreover from ch [OF n] Some register_new [OF assms(2), of preferredId draws c iceServers]
    have "register st sid preferredId draws iceServers =
        Some (registered_as st sid c, Registered c iceServers)"
      by (simp add: registered_as_def)
    ultimately show ?thesis using Some i by auto
  qed
  have 3: "register st sid preferredId draws iceServers \<noteq> None"
    if d: "\<exists>d \<in> set draws. \<not> map_has (peers st) (generateConnectionId d)"
  proof (cases "adoptable st preferredId")
    case True
    with 1 show ?thesis by simp
  next
    case False
    from generate_unused_returns [OF d] obtain c where "generate_unused (peers st) draws = Some c"
      by blast
    with 2 [OF False] show ?thesis by simp
  qed
  from 1 2 3 show ?thesis by blast
qed

text \<open>
  C2 (as amended) at a registry holding 123-456-789: the preferredId 987-654321 is
  adopted as 987-654-321; the preferredId 123456789 is taken, the first draw collides and
  the second draw gives 555-555-555.
\<close>

theorem register_chooses_identifier_witness:
  "reachable one_peer \<and> live_registration one_peer ''s2'' = None
   \<and> list_all valid_draw [123456789, 555555555]
   \<and> adoptable one_peer (Some ''987-654321'')
   \<and> register one_peer ''s2'' (Some ''987-654321'') [123456789, 555555555] []
       = Some (registered_as one_peer ''s2'' ''987-654-321'', Registered ''987-654-321'' [])
   \<and> \<not> adoptable one_peer (Some ''123456789'')
   \<and> register one_peer ''s2'' (Some ''123456789'') [123456789, 555555555] []
       = Some (registered_as one_peer ''s2'' ''555-555-555'', Registered ''555-555-555'' [])"
proof -
  have h: "live_registration one_peer ''s2'' = None" "list_all valid_draw [123456789, 555555555]"
    by (simp_all add: one_peer_def valid_draw_def eval_defs)
  have a: "adoptable one_peer (Some ''987-654321'')" "\<not> adoptable one_peer (Some ''123456789'')"
    by (simp_all add: adoptable_def one_peer_def normalizeId_def)
  have g: "generate_unused (peers one_peer) [123456789, 555555555] = Some ''555-555-555''"
    by (simp add: one_peer_def eval_defs)
  have f: "formatId (normalizeId ''987-654321'') = ''987-654-321''"
    by (simp add: eval_defs)
  from register_chooses_identifier [OF reachable_one_peer h, of "Some ''987-654321''" "[]"]
    register_chooses_identifier [OF reachable_one_peer h, of "Some ''123456789''" "[]"]
    reachable_one_peer h a g f
  show ?thesis by simp
qed

text \<open>
  C2 as stated fails at the preferredId abcdefghi, which has no digit: the handler checks
  only the length, so it adopts abc-def-ghi and does not generate an identifier from the
  draw.
\<close>

theorem preferred_identifier_counterexample:
  "\<not> list_all is_digit (normalizeId ''abcdefghi'')
   \<and> live_registration init ''s1'' = None
   \<and> register init ''s1'' (Some ''abcdefghi'') [123456789] []
       = Some (registered_as init ''s1'' ''abc-def-ghi'', Registered ''abc-def-ghi'' [])
   \<and> generateConnectionId 123456789 = ''123-456-789''"
  by (simp add: is_digit_def registered_as_def eval_defs)

subsection \<open>C3: registering again within the grace period\<close>

text \<open>
  C3. The code at the scenario of the claim: a host paired with a viewer loses its
  transport and registers again from a new socket, asking for its identifier, before the
  grace period ends. The register handler refuses the identifier because the old entry
  is still a key of the registry, and generates 333-333-333; when the callback runs the
  old entry still carries the captured socket id, so it is reclaimed: the viewer is sent
  peer-disconnected, the entry is deleted and the pairing is lost.
\<close>

theorem reconnect_within_grace_period_is_reclaimed:
  "play boot reconnect_actions =
     Some (\<lparr>server = reconnect_final, connected = [''s3'', ''s2''], seen = [''s3'', ''s2'', ''s1'']\<rparr>,
       [(''s1'', ConnectionRequest ''r1'' (Some ''222-222-222'') ''viewer'' None),
        (''s2'', ConnectionAccepted ''111-111-111''),
        (''s2'', PeerDisconnected ''111-111-111'')])"
  by (simp add: reconnect_actions_def reconnect_final_def world_defs)

subsection \<open>C4: request-connection\<close>

text \<open>
  C4 (as amended). A request-connection whose target matches no registered identifier,
  hyphens removed, returns the PeerNotFound error, changes nothing and emits nothing; one
  whose target is Busy returns the PeerBusy error, changes nothing and emits nothing;
  otherwise the pending request is stored under the new request id, the socket of the
  target's registry entry is sent a connection-request with the request id, the
  connectionId property of the requester's socket, the display name (Unknown when none
  is given) and the password as given, and the request id is returned to the caller.
  The connectionId property is the requester's identifier once the requester has
  registered: in every state the server reaches, for a connected requester it is the key
  of the registry entry that carries the requester's socket id. Before that it is
  undefined, and so is the identifier in the notification.
\<close>

theorem request_connection_cases:
  "(list_all (\<lambda>e. normalizeId (fst e) \<noteq> normalizeId targetId) (peers st) \<longrightarrow>
      request_connection st sid targetId viewerName password requestId
        = (st, [], Failure PeerNotFound))
   \<and> (find_entry (peers st) targetId = Some (k, p) \<and> status p = Busy \<longrightarrow>
        request_connection st sid targetId viewerName password requestId
          = (st, [], Failure PeerBusy))
   \<and> (find_entry (peers st) targetId = Some (k, p) \<and> status p = Available \<longrightarrow>
        request_connection st sid targetId viewerName password requestId
          = (st\<lparr>pendingConnections :=
                   map_set (pendingConnections st) requestId (new_request st sid k p)\<rparr>,
             [(socketId p,
               ConnectionRequest requestId (socket_connectionId st sid)
                 (or_else viewerName ''Unknown'') (or_undefined password))],
             Requested requestId)
        \<and> map_get (map_set (pendingConnections st) requestId (new_request st sid k p)) requestId
            = Some (new_request st sid k p)
        \<and> (k, p) \<in> set (peers st) \<and> normalizeId k = normalizeId targetId)
   \<and> (live_reachable w \<and> st = server w \<and> sid \<in> set (connected w)
        \<and> socket_connectionId st sid = Some v \<longrightarrow>
        (\<exists>q. map_get (peers st) v = Some q \<and> socketId q = sid))"
proof (intro conjI impI)
  assume "list_all (\<lambda>e. normalizeId (fst e) \<noteq> normalizeId targetId) (peers st)"
  then have "find_entry (peers st) targetId = None" by (simp add: find_entry_None)
  then show "request_connection st sid targetId viewerName password requestId
        = (st, [], Failure PeerNotFound)"
    by (simp add: request_connection_def)
next
  assume "find_entry (peers st) targetId = Some (k, p) \<and> status p = Busy"
  then show "request_connection st sid targetId viewerName password requestId
          = (st, [], Failure PeerBusy)"
    by (simp add: request_connection_def)
next
  assume a: "find_entry (peers st) targetId = Some (k, p) \<and> status p = Available"
  then show "request_connection st sid targetId viewerName password requestId
          = (st\<lparr>pendingConnections :=
                   map_set (pendingConnections st) requestId (new_request st sid k p)\<rparr>,
             [(socketId p,
               ConnectionRequest requestId (socket_connectionId st sid)
                 (or_else viewerName ''Unknown'') (or_undefined password))],
             Requested requestId)"
    by (simp add: request_connection_def new_request_def)
  show "map_get (map_set (pendingConnections st) requestId (new_request st sid k p)) requestId
            = Some (new_request st sid k p)"
    by (simp add: map_get_map_set)
  from a show "(k, p) \<in> set (peers st)" and "normalizeId k = normalizeId targetId"
    using find_entry_Some by blast+
next
  assume l: "live_reachable w \<and> st = server w \<and> sid \<in> set (connected w)
        \<and> socket_connectionId st sid = Some v"
  then have "live_inv w" using live_reachable_inv by blast
  with l have "holds (peers st) v sid"
    by (auto simp: live_inv_def live_registered_def list_all_iff holds_opt_iff)
  then show "\<exists>q. map_get (peers st) v = Some q \<and> socketId q = sid"
    by (auto simp: holds_def split: option.splits)
qed

text \<open>
  C4 (as amended) at a registry with two Busy peers and an Available one, for the targets
  444444444, 111111111 and 333333333 and a requester that has registered.
\<close>

theorem request_connection_cases_witness:
  "request_connection reclaim_state ''s2'' ''444444444'' (Some ''Ann'') (Some ''pw'') ''r9''
     = (reclaim_state, [], Failure ''Peer not found or offline'')
   \<and> request_connection reclaim_state ''s2'' ''111111111'' (Some ''Ann'') (Some ''pw'') ''r9''
     = (reclaim_state, [], Failure ''Peer is busy with another session'')
   \<and> request_connection reclaim_state ''s2'' ''333333333'' (Some ''Ann'') (Some ''pw'') ''r9''
     = (reclaim_state\<lparr>pendingConnections := pendingConnections reclaim_state @
          [(''r9'', \<lparr>viewerSocketId = ''s2'', viewerConnectionId = Some ''222-222-222'',
                     hostSocketId = ''s3'', hostConnectionId = ''333-333-333''\<rparr>)]\<rparr>,
        [(''s3'', ConnectionRequest ''r9'' (Some ''222-222-222'') ''Ann'' (Some ''pw''))],
        Requested ''r9'')
   \<and> live_reachable \<lparr>server = reclaim_state, connected = [''s3'', ''s2''],
        seen = [''s3'', ''s2'', ''s1'']\<rparr>
   \<and> socket_connectionId reclaim_state ''s2'' = Some ''222-222-222''
   \<and> map_get (peers reclaim_state) ''222-222-222'' = Some (busy_peer ''s2'' (Some ''111-111-111''))
   \<and> socketId (busy_peer ''s2'' (Some ''111-111-111'')) = ''s2''"
proof -
  let ?w = "\<lparr>server = reclaim_state, connected = [''s3'', ''s2''], seen = [''s3'', ''s2'', ''s1'']\<rparr>"
  have 1: "list_all (\<lambda>e. normalizeId (fst e) \<noteq> normalizeId ''444444444'') (peers reclaim_state)"
    by (simp add: reclaim_state_def normalizeId_def)
  have 2: "find_entry (peers reclaim_state) ''111111111''
      = Some (''111-111-111'', busy_peer ''s1'' (Some ''222-222-222''))
      \<and> status (busy_peer ''s1'' (Some ''222-222-222'')) = Busy"
    by (simp add: reclaim_state_def find_entry_def normalizeId_def busy_peer_def)
  have 3: "find_entry (peers reclaim_state) ''333333333'' = Some (''333-333-333'', new_peer ''s3'')
      \<and> status (new_peer ''s3'') = Available"
    by (simp add: reclaim_state_def find_entry_def normalizeId_def new_peer_def)
  have 4: "new_request reclaim_state ''s2'' ''333-333-333'' (new_peer ''s3'') =
      \<lparr>viewerSocketId = ''s2'', viewerConnectionId = Some ''222-222-222'',
       hostSocketId = ''s3'', hostConnectionId = ''333-333-333''\<rparr>"
    "map_set (pendingConnections reclaim_state) ''r9'' r
      = pendingConnections reclaim_state @ [(''r9'', r)]"
    "socketId (new_peer ''s3'') = ''s3''"
    "socket_connectionId reclaim_state ''s2'' = Some ''222-222-222''"
    "or_else (Some ''Ann'') ''Unknown'' = ''Ann''" "or_undefined (Some ''pw'') = Some ''pw''"
    for r
    by (simp_all add: reclaim_state_def three_ids_def new_request_def new_peer_def
        socket_connectionId_def map_get_def or_else_def or_undefined_def truthy_def)
  from request_connection_cases [of "''444444444''" reclaim_state "''s2''" "Some ''Ann''"
      "Some ''pw''" "''r9''" "''x''" "new_peer ''x''"] 1
  have a: "request_connection reclaim_state ''s2'' ''444444444'' (Some ''Ann'') (Some ''pw'') ''r9''
     = (reclaim_state, [], Failure ''Peer not found or offline'')"
    by (simp add: PeerNotFound_def)
  from request_connection_cases [of "''111111111''" reclaim_state "''s2''" "Some ''Ann''"
      "Some ''pw''" "''r9''" "''111-111-111''" "busy_peer ''s1'' (Some ''222-222-222'')"] 2
  have b: "request_connection reclaim_state ''s2'' ''111111111'' (Some ''Ann'') (Some ''pw'') ''r9''
     = (reclaim_state, [], Failure ''Peer is busy with another session'')"
    by (simp add: PeerBusy_def)
  from request_connection_cases [of "''333333333''" reclaim_state "''s2''" "Some ''Ann''"
      "Some ''pw''" "''r9''" "''333-333-333''" "new_peer ''s3''"] 3
  have c: "request_connection reclaim_state ''s2'' ''333333333'' (Some ''Ann'') (Some ''pw'') ''r9''
     = (reclaim_state\<lparr>pendingConnections := pendingConnections reclaim_state @
          [(''r9'', \<lparr>viewerSocketId = ''s2'', viewerConnectionId = Some ''222-222-222'',
                     hostSocketId = ''s3'', hostConnectionId = ''333-333-333''\<rparr>)]\<rparr>,
        [(''s3'', ConnectionRequest ''r9'' (Some ''222-222-222'') ''Ann'' (Some ''pw''))],
        Requested ''r9'')"
    by (simp add: 4)
  have 5: "reclaim_state = server ?w" "''s2'' \<in> set (connected ?w)"
    "map_get (peers reclaim_state) ''222-222-222'' = Some (busy_peer ''s2'' (Some ''111-111-111''))"
    "socketId (busy_peer ''s2'' (Some ''111-111-111'')) = ''s2''"
    by (simp_all add: reclaim_state_def map_get_def busy_peer_def)
  from request_connection_cases [where st = reclaim_state and sid = "''s2''" and w = ?w
      and v = "''222-222-222''"] live_reclaim 4(4) 5
  have d: "\<exists>q. map_get (peers reclaim_state) ''222-222-222'' = Some q \<and> socketId q = ''s2''"
    by blast
  from a b c d live_reclaim 4(4) 5 show ?thesis by simp
qed

text \<open>
  C4 as stated fails for a requester that has not registered: the request is stored and
  the host is notified, but the notification carries no requester identifier.
\<close>

theorem requester_identifier_counterexample:
  "play boot lone_host_actions =
     Some (\<lparr>server = lone_host, connected = [''s2'', ''s1''], seen = [''s2'', ''s1'']\<rparr>, [])
   \<and> socket_connectionId lone_host ''s2'' = None
   \<and> request_connection lone_host ''s2'' ''111-111-111'' (Some ''Ann'') (Some ''pw'') ''r1''
     = (lone_host\<lparr>pendingConnections :=
          [(''r1'', \<lparr>viewerSocketId = ''s2'', viewerConnectionId = None,
                     hostSocketId = ''s1'', hostConnectionId = ''111-111-111''\<rparr>)]\<rparr>,
        [(''s1'', ConnectionRequest ''r1'' None ''Ann'' (Some ''pw''))],
        Requested ''r1'')"
  using play_lone_host
  by (simp add: lone_host_def world_defs)

subsection \<open>C5: connection-response\<close>

text \<open>
  C5 (as amended). A connection-response whose request id names no pending request
  changes nothing and emits nothing. When the request exists and no registry entry
  carries the viewer's socket id, the request is deleted and nothing is emitted. On
  reject the viewer's socket is sent connection-rejected with the host's identifier. On
  accept the viewer's socket is sent connection-accepted with the host's identifier, and,
  in every state the server can reach, when the request recorded a viewer identifier,
  the host's and the viewer's entries exist and both become Busy with connectedTo naming
  each other, every other entry being unchanged. In both resolved cases the request is
  deleted; in every case the request id names no pending request afterwards, so a second
  response is a no-op.
\<close>

theorem connection_response_cases:
  "(map_get (pendingConnections st) requestId = None \<longrightarrow>
      connection_response st sid requestId accepted = (st, []))
   \<and> (map_get (pendingConnections st) requestId = Some req
        \<and> find_by_socket (peers st) (viewerSocketId req) = None \<longrightarrow>
      connection_response st sid requestId accepted
        = (st\<lparr>pendingConnections := map_delete (pendingConnections st) requestId\<rparr>, []))
   \<and> (map_get (pendingConnections st) requestId = Some req
        \<and> find_by_socket (peers st) (viewerSocketId req) \<noteq> None \<and> \<not> accepted \<longrightarrow>
      connection_response st sid requestId accepted
        = (st\<lparr>pendingConnections := map_delete (pendingConnections st) requestId\<rparr>,
           [(viewerSocketId req, ConnectionRejected (hostConnectionId req))]))
   \<and> (map_get (pendingConnections st) requestId = Some req
        \<and> find_by_socket (peers st) (viewerSocketId req) \<noteq> None \<and> accepted \<longrightarrow>
      snd (connection_response st sid requestId accepted)
        = [(viewerSocketId req, ConnectionAccepted (hostConnectionId req))]
      \<and> pendingConnections (fst (connection_response st sid requestId accepted))
          = map_delete (pendingConnections st) requestId)
   \<and> (live_reachable w \<and> st = server w
        \<and> map_get (pendingConnections st) requestId = Some req \<and> accepted
        \<and> viewerConnectionId req = Some v \<longrightarrow>
      (\<exists>hp vp. map_get (peers st) (hostConnectionId req) = Some hp
         \<and> map_get (peers st) v = Some vp
         \<and> snd (connection_response st sid requestId accepted)
             = [(viewerSocketId req, ConnectionAccepted (hostConnectionId req))]
         \<and> map_get (peers (fst (connection_response st sid requestId accepted)))
              (hostConnectionId req) = Some (make_busy (Some v) hp)
         \<and> map_get (peers (fst (connection_response st sid requestId accepted))) v
              = Some (make_busy (Some (hostConnectionId req)) vp)
         \<and> (\<forall>k. k \<noteq> hostConnectionId req \<and> k \<noteq> v \<longrightarrow>
               map_get (peers (fst (connection_response st sid requestId accepted))) k
                 = map_get (peers st) k)))
   \<and> map_get (pendingConnections (fst (connection_response st sid requestId accepted))) requestId
       = None
   \<and> connection_response (fst (connection_response st sid requestId accepted)) sid' requestId
        accepted' = (fst (connection_response st sid requestId accepted), [])"
proof -
  have 1: "connection_response st sid requestId accepted = (st, [])"
    if "map_get (pendingConnections st) requestId = None"
    using that by (simp add: connection_response_def)
  have 2: "connection_response st sid requestId accepted
        = (st\<lparr>pendingConnections := map_delete (pendingConnections st) requestId\<rparr>, [])"
    if "map_get (pendingConnections st) requestId = Some req
        \<and> find_by_socket (peers st) (viewerSocketId req) = None"
    using that by (simp add: connection_response_def)
  have 3: "connection_response st sid requestId accepted
        = (st\<lparr>pendingConnections := map_delete (pendingConnections st) requestId\<rparr>,
           [(viewerSocketId req, ConnectionRejected (hostConnectionId req))])"
    if "map_get (pendingConnections st) requestId = Some req
        \<and> find_by_socket (peers st) (viewerSocketId req) \<noteq> None \<and> \<not> accepted"
    using that by (auto simp: connection_response_def dest: find_by_socket_Some)
  have 4: "snd (connection_response st sid requestId accepted)
        = [(viewerSocketId req, ConnectionAccepted (hostConnectionId req))]
      \<and> pendingConnections (fst (connection_response st sid requestId accepted))
          = map_delete (pendingConnections st) requestId
      \<and> peers (fst (connection_response st sid requestId accepted))
          = pair_with (viewerConnectionId req) (Some (hostConnectionId req))
              (pair_with (Some (hostConnectionId req)) (viewerConnectionId req) (peers st))"
    if "map_get (pendingConnections st) requestId = Some req
        \<and> find_by_socket (peers st) (viewerSocketId req) \<noteq> None \<and> accepted"
    using that by (auto simp: connection_response_def dest: find_by_socket_Some)
  have 5: "\<exists>hp vp. map_get (peers st) (hostConnectionId req) = Some hp
         \<and> map_get (peers st) v = Some vp
         \<and> snd (connection_response st sid requestId accepted)
             = [(viewerSocketId req, ConnectionAccepted (hostConnectionId req))]
         \<and> map_get (peers (fst (connection_response st sid requestId accepted)))
              (hostConnectionId req) = Some (make_busy (Some v) hp)
         \<and> map_get (peers (fst (connection_response st sid requestId accepted))) v
              = Some (make_busy (Some (hostConnectionId req)) vp)
         \<and> (\<forall>k. k \<noteq> hostConnectionId req \<and> k \<noteq> v \<longrightarrow>
               map_get (peers (fst (connection_response st sid requestId accepted))) k
                 = map_get (peers st) k)"
    if a: "live_reachable w \<and> st = server w
        \<and> map_get (pendingConnections st) requestId = Some req \<and> accepted
        \<and> viewerConnectionId req = Some v"
  proof -
    from a pending_request_registered [of w requestId req v] obtain hp vp where
      p: "map_get (peers st) (hostConnectionId req) = Some hp" "map_get (peers st) v = Some vp"
        "find_by_socket (peers st) (viewerSocketId req) \<noteq> None"
      by auto
    from a p(3) have "map_get (pendingConnections st) requestId = Some req
        \<and> find_by_socket (peers st) (viewerSocketId req) \<noteq> None \<and> accepted"
      by blast
    from 4 [OF this] a have "snd (connection_response st sid requestId accepted)
        = [(viewerSocketId req, ConnectionAccepted (hostConnectionId req))]"
      and "peers (fst (connection_response st sid requestId accepted))
          = pair_with (Some v) (Some (hostConnectionId req))
              (pair_with (Some (hostConnectionId req)) (Some v) (peers st))"
      by simp_all
    with p(1,2) show ?thesis
      by (auto simp: pair_with_def map_get_map_adjust make_busy_def)
  qed
  have 6: "map_get (pendingConnections (fst (connection_response st sid requestId accepted)))
      requestId = None"
    by (simp add: connection_response_def map_get_map_delete split: option.splits)
  have 7: "connection_response (fst (connection_response st sid requestId accepted)) sid' requestId
        accepted' = (fst (connection_response st sid requestId accepted), [])"
    using 6 by (simp add: connection_response_def [of "fst (connection_response st sid requestId accepted)"])
  from 1 2 3 4 5 6 7 show ?thesis by blast
qed

text \<open>
  C5 (as amended) at the state reached when two peers registered and one requested the
  other: an unknown request id, a rejection, an acceptance followed by a second response,
  and an acceptance once the viewer's entry is gone.
\<close>

theorem connection_response_cases_witness:
  "live_reachable \<lparr>server = accept_state, connected = [''s2'', ''s1''], seen = [''s2'', ''s1'']\<rparr>
   \<and> map_get (pendingConnections accept_state) ''r1'' = Some accept_request
   \<and> viewerConnectionId accept_request = Some ''222-222-222''
   \<and> map_get (pendingConnections accept_state) ''r0'' = None
   \<and> connection_response accept_state ''s1'' ''r0'' True = (accept_state, [])
   \<and> connection_response accept_state ''s1'' ''r1'' False
       = (accept_state\<lparr>pendingConnections := []\<rparr>, [(''s2'', ConnectionRejected ''111-111-111'')])
   \<and> snd (connection_response accept_state ''s1'' ''r1'' True)
       = [(''s2'', ConnectionAccepted ''111-111-111'')]
   \<and> map_get (peers (fst (connection_response accept_state ''s1'' ''r1'' True))) ''111-111-111''
       = Some (busy_peer ''s1'' (Some ''222-222-222''))
   \<and> map_get (peers (fst (connection_response accept_state ''s1'' ''r1'' True))) ''222-222-222''
       = Some (busy_peer ''s2'' (Some ''111-111-111''))
   \<and> pendingConnections (fst (connection_response accept_state ''s1'' ''r1'' True)) = []
   \<and> connection_response (fst (connection_response accept_state ''s1'' ''r1'' True)) ''s1'' ''r1'' False
       = (fst (connection_response accept_state ''s1'' ''r1'' True), [])
   \<and> connection_response (accept_state\<lparr>peers := [(''111-111-111'', new_peer ''s1'')]\<rparr>)
        ''s1'' ''r1'' True
       = (accept_state\<lparr>peers := [(''111-111-111'', new_peer ''s1'')], pendingConnections := []\<rparr>, [])"
proof -
  let ?w = "\<lparr>server = accept_state, connected = [''s2'', ''s1''], seen = [''s2'', ''s1'']\<rparr>"
  have h: "map_get (pendingConnections accept_state) ''r1'' = Some accept_request"
    "map_get (pendingConnections accept_state) ''r0'' = None"
    "find_by_socket (peers accept_state) (viewerSocketId accept_request) \<noteq> None"
    "viewerConnectionId accept_request = Some ''222-222-222''"
    "hostConnectionId accept_request = ''111-111-111''"
    "viewerSocketId accept_request = ''s2''"
    "map_get (peers accept_state) ''111-111-111'' = Some (new_peer ''s1'')"
    "map_get (peers accept_state) ''222-222-222'' = Some (new_peer ''s2'')"
    "map_delete (pendingConnections accept_state) ''r1'' = []"
    "make_busy (Some ''222-222-222'') (new_peer ''s1'') = busy_peer ''s1'' (Some ''222-222-222'')"
    "make_busy (Some ''111-111-111'') (new_peer ''s2'') = busy_peer ''s2'' (Some ''111-111-111'')"
    "accept_state = server ?w"
    by (simp_all add: accept_state_def accept_request_def map_get_def map_delete_def
        find_by_socket_def new_peer_def busy_peer_def make_busy_def)
  have g: "map_get (pendingConnections (accept_state\<lparr>peers := [(''111-111-111'', new_peer ''s1'')]\<rparr>))
        ''r1'' = Some accept_request"
    "find_by_socket (peers (accept_state\<lparr>peers := [(''111-111-111'', new_peer ''s1'')]\<rparr>))
        (viewerSocketId accept_request) = None"
    "map_delete (pendingConnections (accept_state\<lparr>peers := [(''111-111-111'', new_peer ''s1'')]\<rparr>))
        ''r1'' = []"
    by (simp_all add: accept_state_def accept_request_def map_get_def map_delete_def
        find_by_socket_def new_peer_def)
  from connection_response_cases [of accept_state "''r0''" "''s1''" True accept_request
      ?w "''222-222-222''" "''s1''" False] h
  have a: "connection_response accept_state ''s1'' ''r0'' True = (accept_state, [])"
    by simp
  from connection_response_cases [of accept_state "''r1''" "''s1''" False accept_request
      ?w "''222-222-222''" "''s1''" False] h
  have b: "connection_response accept_state ''s1'' ''r1'' False
       = (accept_state\<lparr>pendingConnections := []\<rparr>, [(''s2'', ConnectionRejected ''111-111-111'')])"
    by simp
  from connection_response_cases [of accept_state "''r1''" "''s1''" True accept_request
      ?w "''222-222-222''" "''s1''" False] h live_accept
  have c: "snd (connection_response accept_state ''s1'' ''r1'' True)
       = [(''s2'', ConnectionAccepted ''111-111-111'')]
   \<and> map_get (peers (fst (connection_response accept_state ''s1'' ''r1'' True))) ''111-111-111''
       = Some (busy_peer ''s1'' (Some ''222-222-222''))
   \<and> map_get (peers (fst (connection_response accept_state ''s1'' ''r1'' True))) ''222-222-222''
       = Some (busy_peer ''s2'' (Some ''111-111-111''))
   \<and> pendingConnections (fst (connection_response accept_state ''s1'' ''r1'' True)) = []
   \<and> connection_response (fst (connection_response accept_state ''s1'' ''r1'' True)) ''s1'' ''r1'' False
       = (fst (connection_response accept_state ''s1'' ''r1'' True), [])"
    by auto
  from connection_response_cases [of "accept_state\<lparr>peers := [(''111-111-111'', new_peer ''s1'')]\<rparr>"
      "''r1''" "''s1''" True accept_request ?w "''222-222-222''" "''s1''" False] g
  have d: "connection_response (accept_state\<lparr>peers := [(''111-111-111'', new_peer ''s1'')]\<rparr>)
        ''s1'' ''r1'' True
       = (accept_state\<lparr>peers := [(''111-111-111'', new_peer ''s1'')], pendingConnections := []\<rparr>, [])"
    by simp
  from a b c d h(1,2,4) live_accept show ?thesis by simp
qed

text \<open>
  C5 as stated fails when the viewer's socket requested before it registered: the request
  records no viewer identifier, so on accept the host becomes Busy with connectedTo unset
  and the viewer's entry stays Available, although the viewer is told it was accepted.
\<close>

theorem accept_pairs_both_counterexample:
  "play boot late_request_actions =
     Some (\<lparr>server = late_request_state, connected = [''s2'', ''s1''], seen = [''s2'', ''s1'']\<rparr>,
       [(''s1'', ConnectionRequest ''r1'' None ''Unknown'' None)])
   \<and> connection_response late_request_state ''s1'' ''r1'' True
       = (late_registration_final, [(''s2'', ConnectionAccepted ''111-111-111'')])
   \<and> find_by_socket (peers late_request_state) ''s2'' = Some (new_peer ''s2'')
   \<and> map_get (peers late_registration_final) ''111-111-111'' = Some (busy_peer ''s1'' None)
   \<and> map_get (peers late_registration_final) ''222-222-222'' = Some (new_peer ''s2'')
   \<and> status (new_peer ''s2'') = Available"
  using play_late_request
  by (simp add: late_request_state_def late_registration_final_def world_defs)

subsection \<open>C6: reclamation\<close>

text \<open>
  C6 (as amended). When the grace-period callback runs for an identifier whose registry
  entry still carries the captured socket id: the peer found by looking up the entry's
  connectedTo, if there is one, is sent peer-disconnected and reset to Available with
  connectedTo null; every pending request whose host is the identifier is deleted, and
  its viewer is sent a rejection with the reason Peer disconnected when some registry
  entry carries the viewer's socket id; every pending request whose viewer identifier is
  the identifier is deleted as well; nothing else is emitted and no other request is
  deleted; finally the identifier's registry entry is deleted.
\<close>

theorem grace_task_reclaims:
  assumes "map_get (peers st) disconnectedId = Some p" and "socketId p = sid"
  shows
    "snd (grace_task st disconnectedId sid) =
       snd (release_partner (peers st) disconnectedId p)
       @ rejection_notices (peers st) disconnectedId (pendingConnections st)
     \<and> (truthy (connectedTo p) \<and> find_entry (peers st) (the (connectedTo p)) = Some (k, q) \<longrightarrow>
          snd (release_partner (peers st) disconnectedId p)
            = [(socketId q, PeerDisconnected disconnectedId)]
          \<and> (k \<noteq> disconnectedId \<longrightarrow>
               map_get (peers (fst (grace_task st disconnectedId sid))) k
                 = Some (make_available q)))
     \<and> (\<not> truthy (connectedTo p) \<or> find_entry (peers st) (the (connectedTo p)) = None \<longrightarrow>
          snd (release_partner (peers st) disconnectedId p) = [])
     \<and> pendingConnections (fst (grace_task st disconnectedId sid))
          = surviving_requests disconnectedId (pendingConnections st)
     \<and> map_get (peers (fst (grace_task st disconnectedId sid))) disconnectedId = None"
proof -
  note g = grace_task_reclaimed [OF assms]
  have 1: "snd (grace_task st disconnectedId sid) =
       snd (release_partner (peers st) disconnectedId p)
       @ rejection_notices (peers st) disconnectedId (pendingConnections st)"
    by (simp add: g)
  have 2: "snd (release_partner (peers st) disconnectedId p)
            = [(socketId q, PeerDisconnected disconnectedId)]
          \<and> (k \<noteq> disconnectedId \<longrightarrow>
               map_get (peers (fst (grace_task st disconnectedId sid))) k
                 = Some (make_available q))"
    if a: "truthy (connectedTo p) \<and> find_entry (peers st) (the (connectedTo p)) = Some (k, q)"
  proof -
    from a have "map_get (peers st) k = Some q" using find_entry_map_get by blast
    with a show ?thesis
      by (simp add: g release_partner_def map_get_map_delete map_get_map_adjust)
  qed
  have 3: "snd (release_partner (peers st) disconnectedId p) = []"
    if "\<not> truthy (connectedTo p) \<or> find_entry (peers st) (the (connectedTo p)) = None"
    using that by (auto simp: release_partner_def)
  have 4: "pendingConnections (fst (grace_task st disconnectedId sid))
          = surviving_requests disconnectedId (pendingConnections st)"
    by (simp add: g)
  have 5: "map_get (peers (fst (grace_task st disconnectedId sid))) disconnectedId = None"
    by (simp add: g map_get_map_delete)
  from 1 2 3 4 5 show ?thesis by blast
qed

text \<open>
  C6 (as amended) at the state reached when a host paired with one viewer disconnects
  while a second viewer's request is still pending and a request of its own is pending
  at that second peer.
\<close>

theorem grace_task_reclaims_witness:
  "live_reachable \<lparr>server = reclaim_state, connected = [''s3'', ''s2''], seen = [''s3'', ''s2'', ''s1'']\<rparr>
   \<and> timers reclaim_state = [(''111-111-111'', ''s1'')]
   \<and> map_get (peers reclaim_state) ''111-111-111'' = Some (busy_peer ''s1'' (Some ''222-222-222''))
   \<and> socketId (busy_peer ''s1'' (Some ''222-222-222'')) = ''s1''
   \<and> find_entry (peers reclaim_state) ''222-222-222''
       = Some (''222-222-222'', busy_peer ''s2'' (Some ''111-111-111''))
   \<and> snd (grace_task reclaim_state ''111-111-111'' ''s1'')
       = [(''s2'', PeerDisconnected ''111-111-111''),
          (''s3'', ConnectionRejectedError ''Peer disconnected'')]
   \<and> map_get (peers (fst (grace_task reclaim_state ''111-111-111'' ''s1''))) ''222-222-222''
       = Some (new_peer ''s2'')
   \<and> pendingConnections (fst (grace_task reclaim_state ''111-111-111'' ''s1'')) = []
   \<and> map_get (peers (fst (grace_task reclaim_state ''111-111-111'' ''s1''))) ''111-111-111'' = None"
proof -
  have h: "map_get (peers reclaim_state) ''111-111-111'' = Some (busy_peer ''s1'' (Some ''222-222-222''))"
    "socketId (busy_peer ''s1'' (Some ''222-222-222'')) = ''s1''"
    by (simp_all add: reclaim_state_def map_get_def busy_peer_def)
  have f: "find_entry (peers reclaim_state) ''222-222-222''
       = Some (''222-222-222'', busy_peer ''s2'' (Some ''111-111-111''))"
    "truthy (connectedTo (busy_peer ''s1'' (Some ''222-222-222'')))"
    "the (connectedTo (busy_peer ''s1'' (Some ''222-222-222''))) = ''222-222-222''"
    "timers reclaim_state = [(''111-111-111'', ''s1'')]"
    by (simp_all add: reclaim_state_def find_entry_def normalizeId_def busy_peer_def truthy_def)
  have r: "rejection_notices (peers reclaim_state) ''111-111-111'' (pendingConnections reclaim_state)
      = [(''s3'', ConnectionRejectedError ''Peer disconnected'')]"
    "surviving_requests ''111-111-111'' (pendingConnections reclaim_state) = []"
    "make_available (busy_peer ''s2'' (Some ''111-111-111'')) = new_peer ''s2''"
    by (simp_all add: reclaim_state_def rejection_notices_def surviving_requests_def
        find_by_socket_def busy_peer_def new_peer_def make_available_def)
  from grace_task_reclaims [OF h, of "''222-222-222''" "busy_peer ''s2'' (Some ''111-111-111'')"]
    h f r live_reclaim
  show ?thesis by (simp add: busy_peer_def)
qed

text \<open>
  C6 as stated fails for a pending request issued by a socket that never registered:
  when its host is reclaimed the request is deleted and nothing is emitted, so the viewer
  is not notified of the rejection.
\<close>

theorem reclaim_notification_counterexample:
  "play boot unnotified_viewer_actions =
     Some (\<lparr>server = unnotified_before, connected = [''s2''], seen = [''s2'', ''s1'']\<rparr>,
       [(''s1'', ConnectionRequest ''r1'' None ''Unknown'' None)])
   \<and> map_get (pendingConnections unnotified_before) ''r1''
       = Some \<lparr>viewerSocketId = ''s2'', viewerConnectionId = None,
               hostSocketId = ''s1'', hostConnectionId = ''111-111-111''\<rparr>
   \<and> step unnotified_before GraceElapsed = Some (unnotified_after, [])
   \<and> pendingConnections unnotified_after = []"
  using play_unnotified_viewer
  by (simp add: unnotified_before_def unnotified_after_def world_defs)

subsection \<open>C7: format and uniqueness of identifiers\<close>

text \<open>
  C7. Every identifier the generator produces from a draw in range is three groups of
  three digits joined by hyphens, and in every reachable state no two registered peers
  have the same hyphen-stripped identifier, whether the identifiers were generated or
  adopted from a preferredId.
\<close>

theorem identifiers_formatted_and_unique:
  "(valid_draw n \<longrightarrow> id_format (generateConnectionId n))
   \<and> (reachable st \<longrightarrow> distinct (map (\<lambda>e. normalizeId (fst e)) (peers st)))"
  using generate_format reachable_good_keys good_keys_normalized_distinct by blast

text \<open>
  C7 at the draw 123456789 and at a reachable registry of three peers.
\<close>

theorem identifiers_formatted_and_unique_witness:
  "valid_draw 123456789 \<and> generateConnectionId 123456789 = ''123-456-789''
   \<and> id_format (generateConnectionId 123456789)
   \<and> reachable overlapping_accepts_final
   \<and> distinct (map (\<lambda>e. normalizeId (fst e)) (peers overlapping_accepts_final))"
  using identifiers_formatted_and_unique [of 123456789 overlapping_accepts_final]
    reachable_overlapping_accepts
  by (simp add: valid_draw_def generateConnectionId_def toString.simps digit_char_def
      formatId_def slice_def)

subsection \<open>C8: lookup\<close>

text \<open>
  C8 (as amended). Lookup compares identifiers with the hyphens removed, and nothing
  else: two queries with the same hyphen-stripped form return the same result in every
  state; a peer is found exactly when some registered identifier has the same
  hyphen-stripped form as the query; the peer returned is the peer of such an entry, and
  in every reachable state the peer of every such entry is the one returned.
\<close>

theorem lookup_ignores_separators:
  "(normalizeId a = normalizeId b \<longrightarrow> findPeerByConnectionId st a = findPeerByConnectionId st b)
   \<and> ((findPeerByConnectionId st q \<noteq> None) =
        (\<exists>e\<in>set (peers st). normalizeId (fst e) = normalizeId q))
   \<and> (findPeerByConnectionId st q = Some p \<longrightarrow>
        (\<exists>k. (k, p) \<in> set (peers st) \<and> normalizeId k = normalizeId q))
   \<and> (reachable st \<and> (k, p) \<in> set (peers st) \<and> normalizeId k = normalizeId q \<longrightarrow>
        findPeerByConnectionId st q = Some p)"
proof -
  have 1: "find_entry (peers st) a = find_entry (peers st) b" if "normalizeId a = normalizeId b"
    using that by (simp add: find_entry_def)
  have 2: "(find_entry (peers st) q \<noteq> None)
      = (\<exists>e\<in>set (peers st). normalizeId (fst e) = normalizeId q)"
    by (simp add: find_entry_None list_all_iff)
  have 3: "\<exists>k. (k, p) \<in> set (peers st) \<and> normalizeId k = normalizeId q"
    if "findPeerByConnectionId st q = Some p"
  proof -
    from that obtain k where "find_entry (peers st) q = Some (k, p)"
      by (auto simp: findPeerByConnectionId_def)
    with find_entry_Some show ?thesis by blast
  qed
  have 4: "findPeerByConnectionId st q = Some p"
    if r: "reachable st \<and> (k, p) \<in> set (peers st) \<and> normalizeId k = normalizeId q"
  proof -
    from r 2 obtain k' p' where f: "find_entry (peers st) q = Some (k', p')"
      by (cases "find_entry (peers st) q") force+
    with find_entry_Some have m: "(k', p') \<in> set (peers st)" "normalizeId k' = normalizeId q"
      by blast+
    from r have "distinct (map (\<lambda>e. normalizeId (fst e)) (peers st))"
      using reachable_good_keys good_keys_normalized_distinct by blast
    then have "inj_on (\<lambda>e. normalizeId (fst e)) (set (peers st))"
      by (simp add: distinct_map)
    from inj_onD [OF this, of "(k', p')" "(k, p)"] r m have "(k', p') = (k, p)" by simp
    with f show ?thesis by (simp add: findPeerByConnectionId_def)
  qed
  from 1 2 3 4 show ?thesis by (simp add: findPeerByConnectionId_def)
qed

text \<open>
  C8 (as amended) at a registry holding 123-456-789: the queries 123-456-789, 123456789
  and 12-34-56-78-9 all return its peer, and 123-456-780 returns none.
\<close>

theorem lookup_ignores_separators_witness:
  "normalizeId ''123-456-789'' = normalizeId ''123456789''
   \<and> reachable one_peer
   \<and> (''123-456-789'', new_peer ''s1'') \<in> set (peers one_peer)
   \<and> findPeerByConnectionId one_peer ''123-456-789'' = Some (new_peer ''s1'')
   \<and> findPeerByConnectionId one_peer ''123456789'' = Some (new_peer ''s1'')
   \<and> findPeerByConnectionId one_peer ''12-34-56-78-9'' = Some (new_peer ''s1'')
   \<and> findPeerByConnectionId one_peer ''123-456-780'' = None"
proof -
  have h: "normalizeId ''123-456-789'' = normalizeId ''123456789''"
    "normalizeId ''123-456-789'' = normalizeId ''12-34-56-78-9''"
    "(''123-456-789'', new_peer ''s1'') \<in> set (peers one_peer)"
    "\<not> (\<exists>e\<in>set (peers one_peer). normalizeId (fst e) = normalizeId ''123-456-780'')"
    by (simp_all add: normalizeId_def one_peer_def)
  from lookup_ignores_separators [of "''123-456-789''" "''123456789''" one_peer "''123456789''"
      "new_peer ''s1''" "''123-456-789''"] h reachable_one_peer
  have a: "findPeerByConnectionId one_peer ''123456789'' = Some (new_peer ''s1'')"
    and b: "findPeerByConnectionId one_peer ''123-456-789'' = Some (new_peer ''s1'')"
    by simp_all
  from lookup_ignores_separators [of "''123-456-789''" "''12-34-56-78-9''" one_peer "''123-456-780''"
      "new_peer ''s1''" "''123-456-789''"] h b
  have c: "findPeerByConnectionId one_peer ''12-34-56-78-9'' = Some (new_peer ''s1'')"
    and d: "findPeerByConnectionId one_peer ''123-456-780'' = None"
    by simp_all
  from a b c d h(1,3) reachable_one_peer show ?thesis by simp
qed

text \<open>
  C8 as stated fails for separators other than the hyphen: the query with spaces has the
  same digit sequence as 123456789 and as the registered 123-456-789, and finds no peer.
\<close>

theorem lookup_digit_sequence_counterexample:
  "play boot one_peer_actions =
     Some (\<lparr>server = one_peer, connected = [''s1''], seen = [''s1'']\<rparr>, [])
   \<and> digits_of ''123 456 789'' = digits_of ''123456789''
   \<and> digits_of ''123 456 789'' = digits_of ''123-456-789''
   \<and> findPeerByConnectionId one_peer ''123456789'' = Some (new_peer ''s1'')
   \<and> findPeerByConnectionId one_peer ''123 456 789'' = None"
  using play_one_peer
  by (simp add: digits_of_def is_digit_def findPeerByConnectionId_def find_entry_def
      normalizeId_def one_peer_def)

subsection \<open>C9: register twice\<close>

text \<open>
  C9. A register call by a socket that holds a live registration (its connectionId is
  set and still a key of the registry) returns that identifier and leaves the state
  unchanged; hence after any register call that returned an identifier, a second call on
  the same socket returns the same identifier and changes nothing, whatever its arguments.
\<close>

theorem register_idempotent:
  "(live_registration st sid = Some c \<longrightarrow>
      register st sid preferredId draws iceServers = Some (st, Registered c iceServers))
   \<and> (register st sid preferredId draws iceServers = Some (st1, Registered c1 ice1) \<longrightarrow>
        register st1 sid preferredId' draws' iceServers' = Some (st1, Registered c1 iceServers'))"
proof (intro conjI impI)
  assume "live_registration st sid = Some c"
  then show "register st sid preferredId draws iceServers = Some (st, Registered c iceServers)"
    by (rule register_live)
next
  assume r: "register st sid preferredId draws iceServers = Some (st1, Registered c1 ice1)"
  show "register st1 sid preferredId' draws' iceServers' = Some (st1, Registered c1 iceServers')"
  proof (cases "live_registration st sid")
    case (Some c0)
    with r have "st1 = st" "c1 = c0" by (simp_all add: register_live)
    with Some show ?thesis by (simp add: register_live)
  next
    case None
    with r obtain c' where c': "choose_id st preferredId draws = Some c'"
      by (cases "choose_id st preferredId draws") (simp_all add: register_stuck)
    from r register_new [OF None c', of iceServers]
    have "st1 = st\<lparr>peers := peers st @ [(c1, new_peer sid)],
        connectionIds := map_set (connectionIds st) sid c1\<rparr>" and "c' = c1"
      by auto
    with c' show ?thesis
      by (simp add: register_live live_after_new choose_id_nonempty)
  qed
qed

text \<open>
  C9 at the first registration of socket s1: the second call, although it asks for
  555-555-555, returns 123-456-789 and the registry still has one entry.
\<close>

theorem register_idempotent_witness:
  "live_registration one_peer ''s1'' = Some ''123-456-789''
   \<and> register one_peer ''s1'' (Some ''555555555'') [555555555] [] =
       Some (one_peer, Registered ''123-456-789'' [])
   \<and> register init ''s1'' None [123456789] [] = Some (one_peer, Registered ''123-456-789'' [])
   \<and> peers one_peer = [(''123-456-789'', new_peer ''s1'')]"
proof -
  have l: "live_registration one_peer ''s1'' = Some ''123-456-789''"
    by (simp add: one_peer_def live_registration_def socket_connectionId_def map_get_def map_has_def)
  have r: "register init ''s1'' None [123456789] [] = Some (one_peer, Registered ''123-456-789'' [])"
    by (simp add: one_peer_def eval_defs)
  from register_idempotent [of one_peer "''s1''" "''123-456-789''" "Some ''555555555''" "[555555555]" "[]"
      one_peer "''123-456-789''" "[]" "Some ''555555555''" "[555555555]" "[]"]
    register_idempotent [of init "''s1''" "''123-456-789''" None "[123456789]" "[]"
      one_peer "''123-456-789''" "[]" "Some ''555555555''" "[555555555]" "[]"]
    l r
  show ?thesis by (simp add: one_peer_def)
qed

subsection \<open>C10: the sender of a connection-response\<close>

text \<open>
  C10. The effect of a connection-response does not depend on the socket that sends it:
  for every state, request id and answer, any two sending sockets (the host, the viewer
  itself or a third peer) produce the same new state and the same emissions. No check
  ties the responder to the host of the request.
\<close>

theorem connection_response_any_sender:
  "connection_response st sid requestId accepted = connection_response st sid' requestId accepted"
  by (simp add: connection_response_def)

end
